theory Spec2Isabelle
  imports Main "HOL-Library.Word" "HOL-Library.Monad_Syntax"
begin

unbundle bit_operations_syntax

section \<open>The AES-GCM session engine of wolfEngine (src/src/aes_gcm.c)\<close>

text \<open>
  The three entry points of the file, \<open>we_aes_gcm_init\<close>, \<open>we_aes_gcm_cipher\<close> (with its
  helper \<open>we_aes_gcm_tls_cipher\<close>) and \<open>we_aes_gcm_ctrl\<close>, are embedded as functions
  that take the EVP context and return the C return value together with the updated
  context and the buffers written through pointer arguments.

  A result is an \<open>option\<close>: \<open>None\<close> stands for undefined behaviour of the C program, a
  read or write outside a buffer or through a NULL pointer. The return codes of the
  source (\<open>ret = 0\<close>, \<open>ret = 1\<close>, a length) are ordinary values inside \<open>Some\<close>.
\<close>

subsection \<open>Bytes, buffers and C integer conversions\<close>

type_synonym byte = "8 word"

text \<open>Reading \<open>n\<close> bytes at \<open>buf + off\<close>.\<close>

definition slice :: "'a list \<Rightarrow> nat \<Rightarrow> nat \<Rightarrow> 'a list option" where
  "slice buf off n = (if off + n \<le> length buf then Some (take n (drop off buf)) else None)"

text \<open>
  Writing into the \<open>n\<close> bytes at \<open>buf + off\<close>: the region has to lie inside the buffer;
  \<open>src\<close> holds the bytes stored, at most \<open>n\<close> of them are used.
\<close>

definition patch :: "'a list \<Rightarrow> nat \<Rightarrow> nat \<Rightarrow> 'a list \<Rightarrow> 'a list option" where
  "patch buf off n src =
     (if off + n \<le> length buf
      then Some (take off buf @ take n src @ drop (off + min n (length src)) buf)
      else None)"

text \<open>\<open>XMEMCPY(dst + doff, src + soff, n)\<close>.\<close>

definition XMEMCPY :: "byte list \<Rightarrow> nat \<Rightarrow> byte list \<Rightarrow> nat \<Rightarrow> nat \<Rightarrow> byte list option" where
  "XMEMCPY dst doff src soff n = do { bs \<leftarrow> slice src soff n; patch dst doff n bs }"

text \<open>\<open>(int)len\<close> for a \<open>size_t len\<close>: the low 32 bits, read as two's complement.\<close>

definition c_int :: "nat \<Rightarrow> int" where
  "c_int n = sint (word_of_nat n :: 32 word)"

text \<open>An \<open>int\<close> passed where a \<open>word32\<close> (unsigned 32 bit) is expected.\<close>

definition c_word32 :: "int \<Rightarrow> nat" where
  "c_word32 i = unat (word_of_int i :: 32 word)"

text \<open>An \<open>int\<close> converted to \<open>size_t\<close> (64 bit), as in the length argument of a copy.\<close>

definition c_size_t :: "int \<Rightarrow> nat" where
  "c_size_t i = unat (word_of_int i :: 64 word)"

text \<open>
  \<open>OPENSSL_realloc(p, n)\<close> when it succeeds: the old contents up to \<open>n\<close> bytes, then
  fresh bytes. Fresh bytes are indeterminate in C and are written as 0 here; the source
  overwrites them before it reads them whenever \<open>aadLen\<close> is the size of the old buffer.
\<close>

definition OPENSSL_realloc :: "byte list option \<Rightarrow> nat \<Rightarrow> byte list" where
  "OPENSSL_realloc p n =
     (case p of None \<Rightarrow> replicate n 0 | Some b \<Rightarrow> take n b @ replicate (n - length b) 0)"

text \<open>\<open>OPENSSL_malloc(n)\<close> when it succeeds; fresh bytes as above.\<close>

definition OPENSSL_malloc :: "nat \<Rightarrow> byte list" where
  "OPENSSL_malloc n = replicate n 0"

subsection \<open>Constants\<close>

text \<open>\<open>GCM_NONCE_MAX_SZ\<close> and \<open>GCM_NONCE_MID_SZ\<close>, lines 25 to 32 of the source.\<close>

definition GCM_NONCE_MAX_SZ :: nat where "GCM_NONCE_MAX_SZ = 16"
definition GCM_NONCE_MID_SZ :: nat where "GCM_NONCE_MID_SZ = 12"

text \<open>
  Modelled from the spec: the macros \<open>AES_BLOCK_SIZE\<close>, \<open>EVP_GCM_TLS_TAG_LEN\<close>,
  \<open>EVP_AEAD_TLS1_AAD_LEN\<close>, \<open>EVP_GCM_TLS_EXPLICIT_IV_LEN\<close> and
  \<open>EVP_GCM_TLS_FIXED_IV_LEN\<close> come from headers that are not part of the sources at hand.
  The specification fixes the tag block at 16 bytes, the TLS header at 13 bytes and the
  nominal nonce at 12 bytes; the nonce splits into the 4 byte fixed part and the 8 byte
  explicit part of a TLS 1.2 GCM record.
\<close>

definition AES_BLOCK_SIZE :: nat where "AES_BLOCK_SIZE = 16"
definition EVP_GCM_TLS_TAG_LEN :: nat where "EVP_GCM_TLS_TAG_LEN = 16"
definition EVP_AEAD_TLS1_AAD_LEN :: nat where "EVP_AEAD_TLS1_AAD_LEN = 13"
definition EVP_GCM_TLS_EXPLICIT_IV_LEN :: nat where "EVP_GCM_TLS_EXPLICIT_IV_LEN = 8"
definition EVP_GCM_TLS_FIXED_IV_LEN :: nat where "EVP_GCM_TLS_FIXED_IV_LEN = 4"

subsection \<open>The session and the EVP context\<close>

text \<open>
  \<open>struct we_AesGcm\<close>. The wolfSSL object \<open>Aes\<close> is opaque (type \<open>'a\<close>). The arrays
  \<open>iv\<close> and \<open>tag\<close> have 16 bytes in C; \<open>aad\<close> is a heap pointer, \<open>None\<close> when NULL.
  The one bit fields are booleans.
\<close>

record 'a we_AesGcm =
  aes :: 'a
  iv :: "byte list"
  ivLen :: int
  ivSet :: int
  tag :: "byte list"
  tagLen :: int
  aad :: "byte list option"
  aadLen :: int
  init :: bool
  enc :: bool
  tls :: bool

text \<open>
  What the source uses of \<open>EVP_CIPHER_CTX\<close>: the cipher data (NULL or the session),
  the key length and the context's own IV buffer.
\<close>

record 'a EVP_CIPHER_CTX =
  cipher_data :: "'a we_AesGcm option"
  key_length :: int
  iv_noconst :: "byte list"

text \<open>
  The representation invariant of a session: the arrays have their declared size, the
  IV length is in the range the source ever stores, and \<open>aadLen\<close> is the size of the
  AAD buffer (0 when there is none).
\<close>

definition session_ok :: "'a we_AesGcm \<Rightarrow> bool" where
  "session_ok a \<longleftrightarrow>
     length (iv a) = 16 \<and> length (tag a) = 16 \<and> 0 \<le> ivLen a \<and> ivLen a \<le> 16 \<and>
     0 \<le> tagLen a \<and> tagLen a \<le> 16 \<and>
     (case aad a of None \<Rightarrow> aadLen a = 0 | Some b \<Rightarrow> aadLen a = int (length b)) \<and>
     aadLen a < 2 ^ 31"

subsection \<open>The AEAD primitive and the build configuration\<close>

text \<open>
  The wolfCrypt functions are outside the engine and are parameters of the model. Each
  takes the contents of the regions it may read and returns its return code, the new
  \<open>Aes\<close> object and the bytes it stores into each region it may write.
\<close>

record 'a enc_result =
  e_rc :: int
  e_aes :: 'a
  e_out :: "byte list"
  e_iv :: "byte list"
  e_tag :: "byte list"

record 'a dec_result =
  d_rc :: int
  d_aes :: 'a
  d_out :: "byte list"

text \<open>
  \<open>wc_AesGcmEncrypt_ex aes in ivOut authTagSz authIn authInSz\<close> and
  \<open>wc_AesGcmDecrypt aes in iv authTag authIn authInSz\<close>: the byte lists are the
  regions of the given sizes, \<open>authIn\<close> is \<open>None\<close> for a NULL pointer. \<open>aes_reg\<close> reads
  the field \<open>reg\<close> (16 bytes) of the \<open>Aes\<close> object. \<open>wc_AesGcmSetIV\<close> includes the draw
  from the random number generator \<open>we_rng\<close>.
\<close>

record 'a wolfcrypt =
  wc_AesGcmSetKey :: "'a \<Rightarrow> byte list \<Rightarrow> int \<Rightarrow> int \<times> 'a"
  wc_AesGcmSetExtIV :: "'a \<Rightarrow> byte list \<Rightarrow> int \<times> 'a"
  wc_AesGcmSetIV :: "'a \<Rightarrow> int \<Rightarrow> byte list option \<Rightarrow> int \<Rightarrow> int \<times> 'a"
  wc_AesGcmEncrypt_ex ::
    "'a \<Rightarrow> byte list \<Rightarrow> byte list \<Rightarrow> nat \<Rightarrow> byte list option \<Rightarrow> nat \<Rightarrow> 'a enc_result"
  wc_AesGcmDecrypt ::
    "'a \<Rightarrow> byte list \<Rightarrow> byte list \<Rightarrow> byte list \<Rightarrow> byte list option \<Rightarrow> nat \<Rightarrow> 'a dec_result"
  aes_reg :: "'a \<Rightarrow> byte list"
  OPENSSL_VERSION_NUMBER :: nat

text \<open>
  The pair \<open>(aes->aad, aes->aadLen)\<close> as handed to the primitive: a NULL pointer is
  passed on as it is, a buffer has to hold the \<open>aadLen\<close> bytes.
\<close>

definition aad_arg :: "'a we_AesGcm \<Rightarrow> byte list option option" where
  "aad_arg a =
     (case aad a of
        None \<Rightarrow> Some None
      | Some b \<Rightarrow> map_option Some (slice b 0 (c_word32 (aadLen a))))"

subsection \<open>\<open>we_aes_gcm_init\<close>\<close>

text \<open>
  Lines 78 to 126. \<open>key\<close> and \<open>ivp\<close> are \<open>None\<close> for NULL. The bit field \<open>enc\<close> keeps
  the low bit of the argument.
\<close>

definition we_aes_gcm_init ::
  "'a wolfcrypt \<Rightarrow> 'a EVP_CIPHER_CTX \<Rightarrow> byte list option \<Rightarrow> byte list option \<Rightarrow> int
     \<Rightarrow> (int \<times> 'a EVP_CIPHER_CTX) option" where
  "we_aes_gcm_init W ctx key ivp encf =
     (case cipher_data ctx of
        None \<Rightarrow> Some (0, ctx)
      | Some a0 \<Rightarrow>
          let a1 = (if (key = None \<and> ivp = None) \<or> \<not> init a0
                    then a0\<lparr>ivLen := 0, ivSet := 0, tagLen := 0, aad := None, aadLen := 0,
                            enc := odd encf, init := True, tls := False\<rparr>
                    else a0);
              (ret, a2) =
                (case key of
                   None \<Rightarrow> (1, a1)
                 | Some k \<Rightarrow>
                     (let (rc, x) = wc_AesGcmSetKey W (aes a1) k (key_length ctx)
                      in (if rc \<noteq> 0 then 0 else 1, a1\<lparr>aes := x\<rparr>)))
          in if ret = (1::int) \<and> ivp \<noteq> None
             then do {
               v \<leftarrow> ivp;
               iv' \<leftarrow> XMEMCPY (iv a2) 0 v 0 GCM_NONCE_MID_SZ;
               Some (1, ctx\<lparr>cipher_data := Some (a2\<lparr>ivLen := int GCM_NONCE_MID_SZ, iv := iv'\<rparr>)\<rparr>)
             }
             else Some (ret, ctx\<lparr>cipher_data := Some a2\<rparr>))"

subsection \<open>\<open>we_aes_gcm_tls_cipher\<close>\<close>

text \<open>
  Lines 128 to 201. \<open>inp\<close> is the input buffer, \<open>len\<close> its length; \<open>out\<close> is the output
  buffer as it is before the call (\<open>None\<close> for NULL), and the result holds it as it is
  after the call. \<open>encLen\<close> and \<open>decLen\<close> are computed in \<open>word32\<close> and wrap around.
\<close>

definition we_aes_gcm_tls_cipher ::
  "'a wolfcrypt \<Rightarrow> 'a we_AesGcm \<Rightarrow> byte list option \<Rightarrow> byte list
     \<Rightarrow> (int \<times> 'a we_AesGcm \<times> byte list option) option" where
  "we_aes_gcm_tls_cipher W a out inp =
     (let len = length inp in
      do {
        (ret, a1, out1) \<leftarrow>
          (if enc a then
             (let encLen = unat ((word_of_nat len :: 32 word)
                                  - word_of_nat EVP_GCM_TLS_EXPLICIT_IV_LEN
                                  - word_of_nat EVP_GCM_TLS_TAG_LEN)
              in if len \<noteq> 0 then do {
                   ob \<leftarrow> out;
                   o1 \<leftarrow> XMEMCPY ob 0 (iv a) EVP_GCM_TLS_FIXED_IV_LEN EVP_GCM_TLS_EXPLICIT_IV_LEN;
                   pt \<leftarrow> slice inp EVP_GCM_TLS_EXPLICIT_IV_LEN encLen;
                   ivb \<leftarrow> slice (iv a) 0 (c_word32 (ivLen a));
                   toff \<leftarrow> (if EVP_GCM_TLS_TAG_LEN \<le> len then Some (len - EVP_GCM_TLS_TAG_LEN)
                            else None);
                   ad \<leftarrow> aad_arg a;
                   let r = wc_AesGcmEncrypt_ex W (aes a) pt ivb EVP_GCM_TLS_TAG_LEN ad
                             (c_word32 (aadLen a));
                   o2 \<leftarrow> patch o1 EVP_GCM_TLS_EXPLICIT_IV_LEN encLen (e_out r);
                   o3 \<leftarrow> patch o2 toff EVP_GCM_TLS_TAG_LEN (e_tag r);
                   iv' \<leftarrow> patch (iv a) 0 (c_word32 (ivLen a)) (e_iv r);
                   Some (if e_rc r \<noteq> 0 then 0 else c_int len,
                         a\<lparr>aes := e_aes r, iv := iv'\<rparr>, Some o3)
                 }
                 else Some (c_int len, a, out))
           else
             (let decLen = unat ((word_of_nat len :: 32 word)
                                  - word_of_nat EVP_GCM_TLS_EXPLICIT_IV_LEN
                                  - word_of_nat EVP_GCM_TLS_TAG_LEN);
                  ok_ret = (if OPENSSL_VERSION_NUMBER W < 0x30000000
                            then sint (word_of_nat decLen :: 32 word) else c_int len)
              in if len \<noteq> 0 then do {
                   iv1 \<leftarrow> XMEMCPY (iv a) EVP_GCM_TLS_FIXED_IV_LEN inp 0 EVP_GCM_TLS_EXPLICIT_IV_LEN;
                   ob \<leftarrow> out;
                   ct \<leftarrow> slice inp EVP_GCM_TLS_EXPLICIT_IV_LEN decLen;
                   ivb \<leftarrow> slice iv1 0 (c_word32 (ivLen a));
                   toff \<leftarrow> (if EVP_GCM_TLS_TAG_LEN \<le> len then Some (len - EVP_GCM_TLS_TAG_LEN)
                            else None);
                   tg \<leftarrow> slice inp toff EVP_GCM_TLS_TAG_LEN;
                   ad \<leftarrow> aad_arg a;
                   let r = wc_AesGcmDecrypt W (aes a) ct ivb tg ad (c_word32 (aadLen a));
                   o1 \<leftarrow> patch ob EVP_GCM_TLS_EXPLICIT_IV_LEN decLen (d_out r);
                   Some (if d_rc r \<noteq> 0 then 0 else ok_ret,
                         a\<lparr>aes := d_aes r, iv := iv1\<rparr>, Some o1)
                 }
                 else Some (ok_ret, a, out)));
        Some (ret, a1\<lparr>aad := None, aadLen := 0\<rparr>, out1)
      })"

subsection \<open>\<open>we_aes_gcm_cipher\<close>\<close>

text \<open>
  Lines 217 to 307. \<open>realloc_ok\<close> tells whether \<open>OPENSSL_realloc\<close> succeeds if it is
  called. The four branches are in the order of the source: TLS, AAD only (\<open>out\<close> is
  NULL), zero length, payload. In the AAD branch the size \<open>aadLen + (int)len\<close> is an
  \<open>int\<close> sum, undefined when it overflows. The last statement of the payload branch,
  \<open>ret = len\<close>, is line 301.
\<close>

definition we_aes_gcm_cipher ::
  "'a wolfcrypt \<Rightarrow> bool \<Rightarrow> 'a EVP_CIPHER_CTX \<Rightarrow> byte list option \<Rightarrow> byte list
     \<Rightarrow> (int \<times> 'a EVP_CIPHER_CTX \<times> byte list option) option" where
  "we_aes_gcm_cipher W realloc_ok ctx out inp =
     (let len = length inp in
      case cipher_data ctx of
        None \<Rightarrow> Some (0, ctx, out)
      | Some a \<Rightarrow>
          if tls a then do {
            (ret, a', out') \<leftarrow> we_aes_gcm_tls_cipher W a out inp;
            Some (ret, ctx\<lparr>cipher_data := Some a'\<rparr>, out')
          }
          else if out = None then
            (if \<not> realloc_ok then Some (0, ctx, out)
             else do {
               n \<leftarrow> (if - (2 ^ 31) \<le> aadLen a + c_int len \<and> aadLen a + c_int len < 2 ^ 31
                      then Some (c_size_t (aadLen a + c_int len)) else None);
               off \<leftarrow> (if 0 \<le> aadLen a then Some (nat (aadLen a)) else None);
               aad' \<leftarrow> XMEMCPY (OPENSSL_realloc (aad a) n) off inp 0 len;
               Some (0, ctx\<lparr>cipher_data :=
                          Some (a\<lparr>aad := Some aad', aadLen := c_int (c_size_t (aadLen a) + len)\<rparr>)\<rparr>,
                     out)
             })
          else if len = 0 then Some (0, ctx, out)
          else do {
            ob \<leftarrow> out;
            (a2, out2) \<leftarrow>
              (if enc a then do {
                 ivb \<leftarrow> slice (iv a) 0 (c_word32 (ivLen a));
                 let (ret1, a1) =
                       (if ivSet a = 0
                        then (let (rc, x) = wc_AesGcmSetExtIV W (aes a) ivb
                              in (if rc \<noteq> 0 then 0 else 1, a\<lparr>aes := x\<rparr>))
                        else (1::int, a));
                 if ret1 = 1 then do {
                   pt \<leftarrow> slice inp 0 (unat (word_of_nat len :: 32 word));
                   ad \<leftarrow> aad_arg a1;
                   let r = wc_AesGcmEncrypt_ex W (aes a1) pt ivb EVP_GCM_TLS_TAG_LEN ad
                             (c_word32 (aadLen a1));
                   o1 \<leftarrow> patch ob 0 (unat (word_of_nat len :: 32 word)) (e_out r);
                   iv1 \<leftarrow> patch (iv a1) 0 (c_word32 (ivLen a1)) (e_iv r);
                   tg \<leftarrow> patch (tag a1) 0 EVP_GCM_TLS_TAG_LEN (e_tag r);
                   let a3 = a1\<lparr>aes := e_aes r, iv := iv1, tag := tg,
                                tagLen := int EVP_GCM_TLS_TAG_LEN\<rparr>;
                   if e_rc r \<noteq> 0 then Some (a3, Some o1)
                   else do {
                     iv2 \<leftarrow> XMEMCPY iv1 0 (aes_reg W (e_aes r)) 0 (c_size_t (ivLen a1));
                     Some (a3\<lparr>iv := iv2\<rparr>, Some o1)
                   }
                 }
                 else Some (a1, Some ob)
               }
               else do {
                 ct \<leftarrow> slice inp 0 (unat (word_of_nat len :: 32 word));
                 ivb \<leftarrow> slice (iv a) 0 (c_word32 (ivLen a));
                 tg \<leftarrow> slice (tag a) 0 (c_word32 (tagLen a));
                 ad \<leftarrow> aad_arg a;
                 let r = wc_AesGcmDecrypt W (aes a) ct ivb tg ad (c_word32 (aadLen a));
                 o1 \<leftarrow> patch ob 0 (unat (word_of_nat len :: 32 word)) (d_out r);
                 if d_rc r \<noteq> 0 then Some (a\<lparr>aes := d_aes r\<rparr>, Some o1)
                 else do {
                   iv2 \<leftarrow> XMEMCPY (iv a) 0 (aes_reg W (d_aes r)) 0 (c_size_t (ivLen a));
                   Some (a\<lparr>aes := d_aes r, iv := iv2\<rparr>, Some o1)
                 }
               });
            Some (c_int len, ctx\<lparr>cipher_data := Some (a2\<lparr>aad := None, aadLen := 0\<rparr>)\<rparr>, out2)
          })"

subsection \<open>\<open>we_aes_gcm_ctrl\<close>\<close>

text \<open>
  The operations of the switch at line 342. The numeric values of the \<open>EVP_CTRL_\<close>
  macros do not matter, only which case is taken; \<open>EVP_CTRL_OTHER\<close> is any value that
  reaches \<open>default\<close>.
\<close>

datatype ctrl_type =
    EVP_CTRL_AEAD_SET_IVLEN
  | EVP_CTRL_GCM_SET_IV_FIXED
  | EVP_CTRL_GET_IVLEN
  | EVP_CTRL_GCM_IV_GEN
  | EVP_CTRL_AEAD_GET_TAG
  | EVP_CTRL_AEAD_SET_TAG
  | EVP_CTRL_AEAD_TLS1_AAD
  | EVP_CTRL_OTHER

text \<open>
  The \<open>void *ptr\<close> argument: NULL, a buffer of bytes, or the \<open>int\<close> that
  \<open>EVP_CTRL_GET_IVLEN\<close> stores through it.
\<close>

datatype ptr = NULL | Bytes "byte list" | IntCell int

definition ptr_bytes :: "ptr \<Rightarrow> byte list option" where
  "ptr_bytes p = (case p of Bytes b \<Rightarrow> Some b | _ \<Rightarrow> None)"

text \<open>
  The loop of lines 411 to 415,
  \<open>for (i = ivLen - 1; i >= ivLen - 8; i--) if ((++iv[i]) != 0) break;\<close>
  with \<open>lo = ivLen - 8\<close>. An index outside the 16 byte array is undefined behaviour.
\<close>

function iv_gen_loop :: "int \<Rightarrow> int \<Rightarrow> byte list \<Rightarrow> byte list option" where
  "iv_gen_loop i lo v =
     (if i \<ge> lo then
        (if 0 \<le> i \<and> nat i < length v then
           (let v' = v[nat i := v ! nat i + 1]
            in if v' ! nat i \<noteq> 0 then Some v' else iv_gen_loop (i - 1) lo v')
         else None)
      else Some v)"
  by pat_completeness auto
termination
  by (relation "measure (\<lambda>(i, lo, v). nat (i - lo + 1))") auto

declare iv_gen_loop.simps [simp del]

text \<open>The case \<open>EVP_CTRL_GCM_IV_GEN\<close>, lines 398 to 417.\<close>

definition ctrl_iv_gen :: "'a we_AesGcm \<Rightarrow> int \<Rightarrow> ptr \<Rightarrow> (int \<times> 'a we_AesGcm) option" where
  "ctrl_iv_gen a arg p =
     (if arg \<le> 0 \<or> arg > int GCM_NONCE_MAX_SZ then Some (0, a)
      else do {
        src \<leftarrow> ptr_bytes p;
        v0 \<leftarrow> XMEMCPY (iv a) 0 src 0 (nat arg);
        v1 \<leftarrow> iv_gen_loop (ivLen a - 1) (ivLen a - 8) v0;
        Some (1, a\<lparr>iv := v1\<rparr>)
      })"

text \<open>
  The case \<open>EVP_CTRL_AEAD_TLS1_AAD\<close>, lines 455 to 505. \<open>malloc_ok\<close> tells whether
  \<open>OPENSSL_malloc\<close> succeeds. \<open>len\<close> is an \<open>unsigned int\<close>.
\<close>

definition ctrl_tls1_aad ::
  "bool \<Rightarrow> 'a we_AesGcm \<Rightarrow> int \<Rightarrow> ptr \<Rightarrow> (int \<times> 'a we_AesGcm) option" where
  "ctrl_tls1_aad malloc_ok a arg p =
     (if arg \<noteq> int EVP_AEAD_TLS1_AAD_LEN then Some (0, a)
      else if \<not> malloc_ok then Some (0, a\<lparr>aad := None\<rparr>)
      else do {
        src \<leftarrow> ptr_bytes p;
        b \<leftarrow> XMEMCPY (OPENSSL_malloc (nat arg)) 0 src 0 (nat arg);
        let a1 = a\<lparr>aad := Some b, aadLen := arg\<rparr>;
            len0 = (push_bit 8 (ucast (b ! (nat arg - 2))) OR ucast (b ! (nat arg - 1)) :: 32 word)
        in
        if len0 < word_of_nat EVP_GCM_TLS_EXPLICIT_IV_LEN then Some (0, a1)
        else
          let len1 = len0 - word_of_nat EVP_GCM_TLS_EXPLICIT_IV_LEN in
          if \<not> enc a \<and> len1 < word_of_nat EVP_GCM_TLS_TAG_LEN then Some (0, a1)
          else
            let len2 = (if \<not> enc a then len1 - word_of_nat EVP_GCM_TLS_TAG_LEN else len1);
                b' = b[nat arg - 2 := ucast (drop_bit 8 len2), nat arg - 1 := ucast len2]
            in Some (int EVP_GCM_TLS_TAG_LEN, a1\<lparr>aad := Some b', tls := True\<rparr>)
      })"

text \<open>
  The whole function, lines 327 to 517. The result holds the return value, the context
  and what \<open>ptr\<close> points to after the call.
\<close>

definition we_aes_gcm_ctrl ::
  "'a wolfcrypt \<Rightarrow> bool \<Rightarrow> 'a EVP_CIPHER_CTX \<Rightarrow> ctrl_type \<Rightarrow> int \<Rightarrow> ptr
     \<Rightarrow> (int \<times> 'a EVP_CIPHER_CTX \<times> ptr) option" where
  "we_aes_gcm_ctrl W malloc_ok ctx type arg p =
     (case cipher_data ctx of
        None \<Rightarrow> Some (0, ctx, p)
      | Some a \<Rightarrow>
         (case type of
            EVP_CTRL_AEAD_SET_IVLEN \<Rightarrow>
              if arg \<le> 0 \<or> arg > int GCM_NONCE_MAX_SZ then Some (0, ctx, p)
              else Some (1, ctx\<lparr>cipher_data := Some (a\<lparr>ivLen := arg\<rparr>)\<rparr>, p)
          | EVP_CTRL_GCM_SET_IV_FIXED \<Rightarrow>
              (let a1 = (if ivLen a = 0 then a\<lparr>ivLen := int GCM_NONCE_MID_SZ\<rparr> else a) in
               if arg = - 1 then do {
                 src \<leftarrow> ptr_bytes p;
                 v \<leftarrow> XMEMCPY (iv a1) 0 src 0 (c_size_t (ivLen a1));
                 cv \<leftarrow> XMEMCPY (iv_noconst ctx) 0 src 0 (c_size_t (ivLen a1));
                 Some (1, ctx\<lparr>cipher_data := Some (a1\<lparr>iv := v\<rparr>), iv_noconst := cv\<rparr>, p)
               }
               else
                 (let (rc, x) = wc_AesGcmSetIV W (aes a1) (ivLen a1) (ptr_bytes p) arg in
                  if rc \<noteq> 0 then Some (0, ctx\<lparr>cipher_data := Some (a1\<lparr>aes := x\<rparr>)\<rparr>, p)
                  else do {
                    v \<leftarrow> XMEMCPY (iv a1) 0 (aes_reg W x) 0 (c_size_t (ivLen a1));
                    cv \<leftarrow> XMEMCPY (iv_noconst ctx) 0 v 0 (c_size_t (ivLen a1));
                    Some (1, ctx\<lparr>cipher_data := Some (a1\<lparr>aes := x, ivSet := 1, iv := v\<rparr>),
                                 iv_noconst := cv\<rparr>, p)
                  }))
          | EVP_CTRL_GET_IVLEN \<Rightarrow>
              (case p of IntCell _ \<Rightarrow> Some (1, ctx, IntCell (ivLen a)) | _ \<Rightarrow> None)
          | EVP_CTRL_GCM_IV_GEN \<Rightarrow> do {
              (ret, a') \<leftarrow> ctrl_iv_gen a arg p;
              Some (ret, ctx\<lparr>cipher_data := Some a'\<rparr>, p)
            }
          | EVP_CTRL_AEAD_GET_TAG \<Rightarrow>
              if \<not> enc a \<or> arg \<le> 0 \<or> arg > tagLen a then Some (0, ctx, p)
              else do {
                dst \<leftarrow> ptr_bytes p;
                dst' \<leftarrow> XMEMCPY dst 0 (tag a) 0 (nat arg);
                Some (1, ctx, Bytes dst')
              }
          | EVP_CTRL_AEAD_SET_TAG \<Rightarrow>
              if arg \<le> 0 \<or> arg > int AES_BLOCK_SIZE then Some (0, ctx, p)
              else if \<not> enc a \<and> p = NULL then Some (0, ctx, p)
              else if \<not> enc a \<and> p \<noteq> NULL then do {
                src \<leftarrow> ptr_bytes p;
                t \<leftarrow> XMEMCPY (tag a) 0 src 0 (nat arg);
                Some (1, ctx\<lparr>cipher_data := Some (a\<lparr>tag := t, tagLen := arg\<rparr>)\<rparr>, p)
              }
              else Some (1, ctx\<lparr>cipher_data := Some (a\<lparr>tagLen := arg\<rparr>)\<rparr>, p)
          | EVP_CTRL_AEAD_TLS1_AAD \<Rightarrow> do {
              (ret, a') \<leftarrow> ctrl_tls1_aad malloc_ok a arg p;
              Some (ret, ctx\<lparr>cipher_data := Some a'\<rparr>, p)
            }
          | EVP_CTRL_OTHER \<Rightarrow> Some (0, ctx, p)))"

subsection \<open>The counter held in the IV\<close>

text \<open>
  The increment of section 4.4 of the specification, in its words: start at the last
  byte, add one to it, stop if it did not wrap from 0xFF to 0x00, otherwise go on with
  the byte to the left. \<open>le_incr\<close> takes the bytes last first.
\<close>

fun le_incr :: "byte list \<Rightarrow> byte list" where
  "le_incr [] = []"
| "le_incr (b # bs) = (if b + 1 \<noteq> 0 then (b + 1) # bs else 0 # le_incr bs)"

definition be_incr :: "byte list \<Rightarrow> byte list" where
  "be_incr bs = rev (le_incr (rev bs))"

text \<open>The number a byte string denotes, least significant byte first and big-endian.\<close>

fun le_nat :: "byte list \<Rightarrow> nat" where
  "le_nat [] = 0"
| "le_nat (b # bs) = unat b + 256 * le_nat bs"

definition be_nat :: "byte list \<Rightarrow> nat" where
  "be_nat bs = le_nat (rev bs)"

text \<open>The counter of a session: its IV bytes \<open>ivLen - 8\<close> to \<open>ivLen - 1\<close>, big-endian.\<close>

definition iv_counter :: "'a we_AesGcm \<Rightarrow> nat" where
  "iv_counter a = be_nat (take 8 (drop (nat (ivLen a - 8)) (iv a)))"

subsection \<open>A stand-in primitive for running the engine on concrete inputs\<close>

text \<open>
  Not AES-GCM: the ciphertext is the plaintext with every byte xor 0x5A, the tag is 16
  copies of the byte sum of AAD and ciphertext, decryption reports
  \<open>AES_GCM_AUTH_E\<close> (-180) on a tag mismatch and then stores nothing.
\<close>

definition demo_tag :: "byte list option \<Rightarrow> byte list \<Rightarrow> byte list" where
  "demo_tag ad ct = replicate 16 (sum_list (case ad of None \<Rightarrow> [] | Some b \<Rightarrow> b) + sum_list ct)"

definition demo_wc :: "unit wolfcrypt" where
  "demo_wc =
     \<lparr> wc_AesGcmSetKey = (\<lambda>a k n. (0, a)),
       wc_AesGcmSetExtIV = (\<lambda>a v. (0, a)),
       wc_AesGcmSetIV = (\<lambda>a n f m. (0, a)),
       wc_AesGcmEncrypt_ex = (\<lambda>a pt ivb tsz ad adsz.
          \<lparr> e_rc = 0, e_aes = a, e_out = map (\<lambda>b. b XOR 0x5A) pt, e_iv = ivb,
            e_tag = take tsz (demo_tag ad (map (\<lambda>b. b XOR 0x5A) pt)) \<rparr>),
       wc_AesGcmDecrypt = (\<lambda>a ct ivb tg ad adsz.
          if take (length tg) (demo_tag ad ct) = tg
          then \<lparr> d_rc = 0, d_aes = a, d_out = map (\<lambda>b. b XOR 0x5A) ct \<rparr>
          else \<lparr> d_rc = - 180, d_aes = a, d_out = [] \<rparr>),
       aes_reg = (\<lambda>a. replicate 16 0),
       OPENSSL_VERSION_NUMBER = 0x1010100F \<rparr>"

text \<open>A session after \<open>we_aes_gcm_init\<close> with a key and an IV, and a context holding it.\<close>

definition demo_session :: "bool \<Rightarrow> byte list \<Rightarrow> unit we_AesGcm" where
  "demo_session e v =
     \<lparr> aes = (), iv = v, ivLen = 12, ivSet = 0, tag = replicate 16 0, tagLen = 0,
       aad = None, aadLen = 0, init = True, enc = e, tls = False \<rparr>"

definition demo_ctx :: "unit we_AesGcm \<Rightarrow> unit EVP_CIPHER_CTX" where
  "demo_ctx a = \<lparr> cipher_data = Some a, key_length = 16, iv_noconst = replicate 16 0 \<rparr>"

text \<open>\<open>n\<close> calls of \<open>EVP_CTRL_GCM_IV_GEN\<close> in a row, each with the 8 byte all-zero seed.\<close>

fun iv_gen_repeat :: "nat \<Rightarrow> 'a we_AesGcm \<Rightarrow> 'a we_AesGcm option" where
  "iv_gen_repeat 0 a = Some a"
| "iv_gen_repeat (Suc n) a =
     do { (r, a') \<leftarrow> ctrl_iv_gen a 8 (Bytes (replicate 8 0)); iv_gen_repeat n a' }"

text \<open>A length below 65536 as two bytes, big-endian: the length field of a TLS header.\<close>

definition be16 :: "nat \<Rightarrow> byte list" where
  "be16 n = [word_of_nat (n div 256), word_of_nat n]"

text \<open>
  A run of AAD-only calls (\<open>out\<close> is NULL), each with the answer of the allocator and
  the bytes pushed, in order.
\<close>

fun aad_pushes ::
  "'a wolfcrypt \<Rightarrow> (bool \<times> byte list) list \<Rightarrow> 'a EVP_CIPHER_CTX \<Rightarrow> 'a EVP_CIPHER_CTX option" where
  "aad_pushes W [] ctx = Some ctx"
| "aad_pushes W ((ok, bs) # rest) ctx =
     do { (ret, ctx', out') \<leftarrow> we_aes_gcm_cipher W ok ctx None bs; aad_pushes W rest ctx' }"

text \<open>The accumulated AAD of a session as a byte string.\<close>

definition aad_bytes :: "'a we_AesGcm \<Rightarrow> byte list" where
  "aad_bytes a = (case aad a of None \<Rightarrow> [] | Some b \<Rightarrow> b)"

text \<open>
  A session in TLS mode, as \<open>EVP_CTRL_AEAD_TLS1_AAD\<close> leaves it (the 13 byte header
  with its length field rewritten to 2), and a record of 26 bytes: 8 bytes of explicit
  IV, 2 bytes of payload, 16 bytes of tag.
\<close>

definition demo_tls_session :: "bool \<Rightarrow> unit we_AesGcm" where
  "demo_tls_session e =
     (demo_session e [1, 2, 3, 4, 5, 6, 7, 8, 9, 10, 11, 12, 0, 0, 0, 0])
       \<lparr>aad := Some [0, 0, 0, 0, 0, 0, 0, 1, 23, 3, 3, 0, 2], aadLen := 13, tls := True\<rparr>"


definition demo_record :: "byte list" where
  "demo_record =
     [0, 0, 0, 0, 0, 0, 0, 0, 16, 32, 0, 0, 0, 0, 0, 0, 0, 0, 0, 0, 0, 0, 0, 0, 0, 0]"

section \<open>Auxiliary facts\<close>

lemmas gcm_consts =
  GCM_NONCE_MAX_SZ_def GCM_NONCE_MID_SZ_def AES_BLOCK_SIZE_def EVP_GCM_TLS_TAG_LEN_def
  EVP_AEAD_TLS1_AAD_LEN_def EVP_GCM_TLS_EXPLICIT_IV_LEN_def EVP_GCM_TLS_FIXED_IV_LEN_def

subsection \<open>Bytes and the increment\<close>

lemma unat_byte: "unat (b :: byte) < 256"
  using unsigned_less [of b, where 'a = nat] by simp

lemma unat_byte_succ: "unat (b + 1 :: byte) = (unat b + 1) mod 256"
  by (simp add: unat_word_ariths)

lemma byte_succ_wrap: "(b + 1 :: byte) = 0 \<longleftrightarrow> unat b = 255"
proof -
  have "(b + 1 = 0) \<longleftrightarrow> unat (b + 1) = 0"
    by (simp add: unat_eq_0)
  also have "\<dots> \<longleftrightarrow> (unat b + 1) mod 256 = 0"
    by (simp only: unat_byte_succ)
  also have "\<dots> \<longleftrightarrow> unat b = 255"
    using unat_byte [of b] by presburger
  finally show ?thesis .
qed

lemma le_nat_bound: "le_nat bs < 256 ^ length bs"
proof (induction bs)
  case Nil show ?case by simp
next
  case (Cons b bs)
  with unat_byte [of b] show ?case by simp
qed

lemma le_nat_incr: "le_nat (le_incr bs) = (le_nat bs + 1) mod 256 ^ length bs"
proof (induction bs)
  case Nil show ?case by simp
next
  case (Cons b bs)
  show ?case
  proof (cases "b + 1 = 0")
    case True
    then have b: "unat b = 255" by (simp add: byte_succ_wrap)
    have "le_nat (le_incr (b # bs)) = 256 * ((le_nat bs + 1) mod 256 ^ length bs)"
      using True Cons.IH by simp
    also have "\<dots> = (256 * (le_nat bs + 1)) mod (256 * 256 ^ length bs)"
      by (simp only: mult_mod_right)
    also have "\<dots> = (le_nat (b # bs) + 1) mod 256 ^ length (b # bs)"
      using b by (simp add: algebra_simps)
    finally show ?thesis .
  next
    case False
    then have nb: "unat b \<noteq> 255" by (simp add: byte_succ_wrap)
    with unat_byte [of b] have lt: "unat b + 1 < 256" by simp
    then have u: "unat (b + 1) = unat b + 1" by (simp add: unat_byte_succ)
    have "le_nat bs < 256 ^ length bs" by (rule le_nat_bound)
    then have "256 * le_nat bs + 256 \<le> 256 * 256 ^ length bs"
      by (metis Suc_leI mult_Suc_right mult_le_mono2 add.commute)
    with lt have "unat b + 1 + 256 * le_nat bs < 256 ^ length (b # bs)" by simp
    then show ?thesis using False u by simp
  qed
qed


lemma iv_gen_loop_step:
  "lo \<le> int n \<Longrightarrow> n < length v \<Longrightarrow>
   iv_gen_loop (int n) lo v =
     (if v ! n + 1 \<noteq> 0 then Some (v[n := v ! n + 1])
      else iv_gen_loop (int n - 1) lo (v[n := v ! n + 1]))"
  by (subst iv_gen_loop.simps) (simp add: Let_def)

lemma iv_gen_loop_stop: "i < lo \<Longrightarrow> iv_gen_loop i lo v = Some v"
  by (subst iv_gen_loop.simps) simp

lemma iv_gen_loop_neg: "lo \<le> i \<Longrightarrow> i < 0 \<Longrightarrow> iv_gen_loop i lo v = None"
  by (subst iv_gen_loop.simps) simp

lemma byte_succ_wrap': "(b + 1 :: byte) = 0 \<longleftrightarrow> b = 255"
proof -
  have "(b + 1 = 0) \<longleftrightarrow> b = - 1" by (simp add: eq_neg_iff_add_eq_0)
  moreover have "(- 1 :: byte) = 255" by simp
  ultimately show ?thesis by simp
qed

lemma iv_gen_loop_region:
  "iv_gen_loop (int (length pre) + int (length mid) - 1) (int (length pre)) (pre @ mid @ post)
     = Some (pre @ be_incr mid @ post)"
proof (induction mid arbitrary: post rule: rev_induct)
  case Nil
  show ?case by (simp add: iv_gen_loop_stop be_incr_def)
next
  case (snoc b ms)
  let ?n = "length pre + length ms"
  let ?v = "pre @ (ms @ [b]) @ post"
  have i: "int (length pre) + int (length (ms @ [b])) - 1 = int ?n" by simp
  have nth: "?v ! ?n = b" by (simp add: nth_append)
  have upd: "?v[?n := x] = pre @ ms @ x # post" for x
    by (simp add: list_update_append)
  have step: "iv_gen_loop (int ?n) (int (length pre)) ?v =
     (if b + 1 \<noteq> 0 then Some (pre @ ms @ (b + 1) # post)
      else iv_gen_loop (int ?n - 1) (int (length pre)) (pre @ ms @ (b + 1) # post))"
    using iv_gen_loop_step [of "int (length pre)" ?n ?v] by (simp only: nth upd) simp
  show ?case
  proof (cases "b + 1 = 0")
    case True
    have "iv_gen_loop (int (length pre) + int (length ms) - 1) (int (length pre)) (pre @ ms @ (0 # post))
           = Some (pre @ be_incr ms @ 0 # post)" by (rule snoc.IH)
    then show ?thesis unfolding i step using True by (simp add: be_incr_def)
  next
    case False
    then show ?thesis unfolding i step by (simp add: be_incr_def)
  qed
qed

lemma iv_gen_loop_underrun:
  "lo < 0 \<Longrightarrow>
   iv_gen_loop (int (length mid) - 1) lo (mid @ post)
     = (if \<forall>b \<in> set mid. b = 255 then None else Some (be_incr mid @ post))"
proof (induction mid arbitrary: post rule: rev_induct)
  case Nil
  then show ?case by (simp add: iv_gen_loop_neg)
next
  case (snoc b ms)
  let ?n = "length ms"
  let ?v = "(ms @ [b]) @ post"
  have i: "int (length (ms @ [b])) - 1 = int ?n" by simp
  have nth: "?v ! ?n = b" by (simp add: nth_append)
  have upd: "?v[?n := x] = ms @ x # post" for x
    by (simp add: list_update_append)
  have step: "iv_gen_loop (int ?n) lo ?v =
     (if b + 1 \<noteq> 0 then Some (ms @ (b + 1) # post)
      else iv_gen_loop (int ?n - 1) lo (ms @ (b + 1) # post))"
    using iv_gen_loop_step [of lo ?n ?v] snoc.prems by (simp only: nth upd) simp
  show ?case
  proof (cases "b + 1 = 0")
    case True
    have b: "b = 255" using True by (simp add: byte_succ_wrap')
    have "iv_gen_loop (int (length (ms @ [b])) - 1) lo ?v
          = iv_gen_loop (int (length ms) - 1) lo (ms @ (0 # post))"
      unfolding i step using True by simp
    also have "\<dots> = (if \<forall>b \<in> set ms. b = 255 then None else Some (be_incr ms @ 0 # post))"
      by (rule snoc.IH [OF snoc.prems])
    also have "\<dots> = (if \<forall>x \<in> set (ms @ [b]). x = 255 then None
                      else Some (be_incr (ms @ [b]) @ post))"
      using True by (simp add: be_incr_def b)
    finally show ?thesis .
  next
    case False
    then have "b \<noteq> 255" by (simp add: byte_succ_wrap')
    with False show ?thesis unfolding i step by (simp add: be_incr_def)
  qed
qed


lemma slice_Some: "off + n \<le> length buf \<Longrightarrow> slice buf off n = Some (take n (drop off buf))"
  by (simp add: slice_def)

lemma patch_Some:
  "off + n \<le> length buf \<Longrightarrow>
   patch buf off n src = Some (take off buf @ take n src @ drop (off + min n (length src)) buf)"
  by (simp add: patch_def)

lemma XMEMCPY_Some:
  "soff + n \<le> length src \<Longrightarrow> doff + n \<le> length dst \<Longrightarrow>
   XMEMCPY dst doff src soff n = Some (take doff dst @ take n (drop soff src) @ drop (doff + n) dst)"
  by (simp add: XMEMCPY_def slice_def patch_def min_def)

lemma XMEMCPY_length: "XMEMCPY dst doff src soff n = Some r \<Longrightarrow> length r = length dst"
  by (auto simp: XMEMCPY_def slice_def patch_def bind_eq_Some_conv split: if_splits)

lemma le_nat_append: "le_nat (xs @ ys) = le_nat xs + 256 ^ length xs * le_nat ys"
  by (induction xs) (simp_all add: algebra_simps)

lemma le_nat_replicate0: "le_nat (replicate n 0) = 0"
  by (induction n) simp_all

lemma be_nat_append: "be_nat (xs @ ys) = be_nat xs * 256 ^ length ys + be_nat ys"
  by (simp add: be_nat_def le_nat_append)

lemma be_nat_bound: "be_nat bs < 256 ^ length bs"
  using le_nat_bound [of "rev bs"] by (simp add: be_nat_def)

lemma be_nat_zeros: "be_nat (replicate n 0 @ xs) = be_nat xs"
  by (simp add: be_nat_append) (simp add: be_nat_def le_nat_replicate0)

lemma be_nat_incr: "be_nat (be_incr bs) = (be_nat bs + 1) mod 256 ^ length bs"
  using le_nat_incr [of "rev bs"] by (simp add: be_nat_def be_incr_def)

lemma le_incr_length: "length (le_incr bs) = length bs"
  by (induction bs) simp_all

lemma be_incr_length: "length (be_incr bs) = length bs"
  by (simp add: be_incr_def le_incr_length)

lemma iv_gen_loop_in_range:
  assumes "8 \<le> k" and "k \<le> int (length v)"
  shows "iv_gen_loop (k - 1) (k - 8) v =
           Some (take (nat k - 8) v @ be_incr (take 8 (drop (nat k - 8) v)) @ drop (nat k) v)"
proof -
  let ?pre = "take (nat k - 8) v"
  let ?mid = "take 8 (drop (nat k - 8) v)"
  let ?post = "drop (nat k) v"
  have lp: "int (length ?pre) = k - 8" using assms by simp
  have lm: "int (length ?mid) = 8" using assms by simp
  have "drop (nat k - 8) v = ?mid @ drop 8 (drop (nat k - 8) v)"
    by (simp only: append_take_drop_id)
  moreover have "drop 8 (drop (nat k - 8) v) = ?post" using assms by (simp add: add.commute)
  ultimately have v: "v = ?pre @ ?mid @ ?post" by (metis append_take_drop_id)
  have "iv_gen_loop (int (length ?pre) + int (length ?mid) - 1) (int (length ?pre))
          (?pre @ ?mid @ ?post) = Some (?pre @ be_incr ?mid @ ?post)"
    by (rule iv_gen_loop_region)
  then show ?thesis unfolding lp lm using v by simp
qed

lemma iv_gen_loop_short:
  assumes "0 \<le> k" and "k \<le> 7" and "k \<le> int (length v)"
  shows "iv_gen_loop (k - 1) (k - 8) v =
           (if \<forall>b \<in> set (take (nat k) v). b = 255 then None
            else Some (be_incr (take (nat k) v) @ drop (nat k) v))"
proof -
  have lm: "int (length (take (nat k) v)) = k" using assms by simp
  have "iv_gen_loop (int (length (take (nat k) v)) - 1) (k - 8) (take (nat k) v @ drop (nat k) v)
          = (if \<forall>b \<in> set (take (nat k) v). b = 255 then None
             else Some (be_incr (take (nat k) v) @ drop (nat k) v))"
    by (rule iv_gen_loop_underrun) (use assms in simp)
  then show ?thesis unfolding lm by simp
qed


lemma ctrl_iv_gen_copy:
  assumes "1 \<le> arg" and "arg \<le> 16" and "nat arg \<le> length src" and "length (iv a) = 16"
  shows "ctrl_iv_gen a arg (Bytes src) =
           do { v1 \<leftarrow> iv_gen_loop (ivLen a - 1) (ivLen a - 8)
                        (take (nat arg) src @ drop (nat arg) (iv a));
                Some (1, a\<lparr>iv := v1\<rparr>) }"
proof -
  have "XMEMCPY (iv a) 0 src 0 (nat arg) = Some (take (nat arg) src @ drop (nat arg) (iv a))"
    using assms by (simp add: XMEMCPY_Some)
  then show ?thesis using assms
    by (simp add: ctrl_iv_gen_def ptr_bytes_def GCM_NONCE_MAX_SZ_def)
qed

subsection \<open>The generated IV under the all-zero seed\<close>

lemma ctrl_iv_gen_zero_seed:
  assumes "length (iv a) = 16" and "ivLen a = 12"
  shows "\<exists>v. ctrl_iv_gen a 8 (Bytes (replicate 8 0)) = Some (1, a\<lparr>iv := v\<rparr>)
           \<and> v = replicate 4 0 @ be_incr (replicate 4 0 @ take 4 (drop 8 (iv a))) @ drop 12 (iv a)
           \<and> iv_counter (a\<lparr>iv := v\<rparr>) = iv_counter a mod 2 ^ 32 + 1
           \<and> (iv_counter a < 2 ^ 32 \<longrightarrow> iv_counter (a\<lparr>iv := v\<rparr>) = iv_counter a + 1)"
proof -
  define lo where "lo = take 4 (drop 8 (iv a))"
  define post where "post = drop 12 (iv a)"
  define hi where "hi = take 4 (drop 4 (iv a))"
  let ?seed = "replicate 8 (0 :: byte)"
  let ?w = "take (nat 8) ?seed @ drop (nat 8) (iv a)"
  let ?mid = "replicate 4 (0 :: byte) @ lo"
  let ?v = "replicate 4 0 @ be_incr ?mid @ post"
  have llo: "length lo = 4" and lhi: "length hi = 4" using assms by (simp_all add: lo_def hi_def)
  have d8: "drop 8 (iv a) = lo @ post"
    unfolding lo_def post_def using append_take_drop_id [of 4 "drop 8 (iv a)"] by simp
  have w: "?w = replicate 4 0 @ replicate 4 0 @ lo @ post"
    by (simp add: d8 replicate_add [symmetric])
  have pre: "take (nat 12 - 8) ?w = replicate 4 0" unfolding w by simp
  have mid: "take 8 (drop (nat 12 - 8) ?w) = ?mid" unfolding w using llo by simp
  have pst: "drop (nat 12) ?w = post" unfolding w using llo by simp
  have "iv_gen_loop (12 - 1) (12 - 8) ?w
          = Some (take (nat 12 - 8) ?w @ be_incr (take 8 (drop (nat 12 - 8) ?w)) @ drop (nat 12) ?w)"
    by (rule iv_gen_loop_in_range) (use assms in simp_all)
  then have loop: "iv_gen_loop (ivLen a - 1) (ivLen a - 8) ?w = Some ?v"
    unfolding pre mid pst using assms by simp
  have gen: "ctrl_iv_gen a 8 (Bytes ?seed) = Some (1, a\<lparr>iv := ?v\<rparr>)"
    using ctrl_iv_gen_copy [of 8 ?seed a] assms loop by simp
  have "take 8 (drop 4 (iv a)) = hi @ lo"
    unfolding lo_def hi_def using take_add [of 4 4 "drop 4 (iv a)"] by simp
  then have old: "iv_counter a = be_nat hi * 2 ^ 32 + be_nat lo"
    using assms llo by (simp add: iv_counter_def be_nat_append)
  have blo: "be_nat lo < 2 ^ 32" using be_nat_bound [of lo] llo by simp
  have oldm: "iv_counter a mod 2 ^ 32 = be_nat lo" using old blo by simp
  have "iv_counter (a\<lparr>iv := ?v\<rparr>) = be_nat (be_incr ?mid)"
    using assms llo by (simp add: iv_counter_def be_incr_length)
  also have "\<dots> = (be_nat lo + 1) mod 2 ^ 64"
    using llo by (simp add: be_nat_incr be_nat_zeros)
  also have "\<dots> = be_nat lo + 1" using blo by simp
  finally have new: "iv_counter (a\<lparr>iv := ?v\<rparr>) = iv_counter a mod 2 ^ 32 + 1"
    using oldm by simp
  from gen new show ?thesis
    by (intro exI [of _ ?v]) (simp add: lo_def post_def)
qed



lemma iv_gen_repeat_counter:
  "length (iv a) = 16 \<Longrightarrow> ivLen a = 12 \<Longrightarrow> iv_counter a + n \<le> 2 ^ 32 \<Longrightarrow>
   \<exists>v. iv_gen_repeat n a = Some (a\<lparr>iv := v\<rparr>) \<and> length v = 16
       \<and> iv_counter (a\<lparr>iv := v\<rparr>) = iv_counter a + n"
proof (induction n arbitrary: a)
  case 0
  then show ?case by (intro exI [of _ "iv a"]) simp
next
  case (Suc n)
  from ctrl_iv_gen_zero_seed [OF Suc.prems(1,2)] Suc.prems(3) obtain v where
    g: "ctrl_iv_gen a 8 (Bytes (replicate 8 0)) = Some (1, a\<lparr>iv := v\<rparr>)"
    and v: "v = replicate 4 0 @ be_incr (replicate 4 0 @ take 4 (drop 8 (iv a))) @ drop 12 (iv a)"
    and c: "iv_counter (a\<lparr>iv := v\<rparr>) = iv_counter a + 1"
    by auto
  have lv: "length v = 16" using Suc.prems(1) by (simp add: v be_incr_length)
  let ?b = "a\<lparr>iv := v\<rparr>"
  have "\<exists>w. iv_gen_repeat n ?b = Some (?b\<lparr>iv := w\<rparr>) \<and> length w = 16
       \<and> iv_counter (?b\<lparr>iv := w\<rparr>) = iv_counter ?b + n"
    by (rule Suc.IH) (use Suc.prems lv c in simp_all)
  then obtain w where "iv_gen_repeat n ?b = Some (a\<lparr>iv := w\<rparr>)" "length w = 16"
     "iv_counter (a\<lparr>iv := w\<rparr>) = iv_counter a + Suc n"
    using c by auto
  then show ?case by (intro exI [of _ w]) (simp add: g)
qed

lemma iv_gen_repeat_add:
  "iv_gen_repeat (m + n) a = do { b \<leftarrow> iv_gen_repeat m a; iv_gen_repeat n b }"
  by (induction m arbitrary: a) (auto split: bind_splits)

lemma iv_gen_repeat_restarts:
  fixes a :: "'a we_AesGcm"
  assumes "iv a = replicate 16 0" and "ivLen a = 12"
  shows "\<exists>v w. iv_gen_repeat (2 ^ 32) a = Some (a\<lparr>iv := v\<rparr>) \<and> iv_counter (a\<lparr>iv := v\<rparr>) = 2 ^ 32
             \<and> iv_gen_repeat (2 ^ 32 + 1) a = Some (a\<lparr>iv := w\<rparr>) \<and> iv_counter (a\<lparr>iv := w\<rparr>) = 1"
proof -
  have c0: "iv_counter a = 0"
    using assms by (simp add: iv_counter_def be_nat_def le_nat_replicate0)
  have "\<exists>v. iv_gen_repeat (2 ^ 32) a = Some (a\<lparr>iv := v\<rparr>) \<and> length v = 16
       \<and> iv_counter (a\<lparr>iv := v\<rparr>) = iv_counter a + 2 ^ 32"
    by (rule iv_gen_repeat_counter) (use assms c0 in simp_all)
  then obtain v where v: "iv_gen_repeat (2 ^ 32) a = Some (a\<lparr>iv := v\<rparr>)" "length v = 16"
    "iv_counter (a\<lparr>iv := v\<rparr>) = 2 ^ 32" using c0 by auto
  let ?b = "a\<lparr>iv := v\<rparr>"
  from ctrl_iv_gen_zero_seed [of ?b] v assms obtain w where
    g: "ctrl_iv_gen ?b 8 (Bytes (replicate 8 0)) = Some (1, ?b\<lparr>iv := w\<rparr>)"
    and c: "iv_counter (?b\<lparr>iv := w\<rparr>) = iv_counter ?b mod 2 ^ 32 + 1"
    by auto
  have "iv_gen_repeat (2 ^ 32 + 1) a = Some (a\<lparr>iv := w\<rparr>)"
    by (simp only: iv_gen_repeat_add v) (simp add: g)
  moreover have "iv_counter (a\<lparr>iv := w\<rparr>) = 1" using c v by simp
  ultimately show ?thesis using v by blast
qed

subsection \<open>The TLS header and its length field\<close>

lemma tls_len_word:
  fixes h l :: byte
  shows "(push_bit 8 (ucast h) OR ucast l :: 32 word) = word_of_nat (256 * unat h + unat l)"
proof -
  have "push_bit 8 (ucast h :: 32 word) AND ucast l = 0"
    by (rule bit_eqI) (auto simp: bit_simps dest: bit_imp_le_length)
  then have "(push_bit 8 (ucast h) OR ucast l :: 32 word) = push_bit 8 (ucast h) + ucast l"
    by (simp add: disjunctive_add_eq_or)
  also have "\<dots> = word_of_nat (256 * unat h + unat l)"
    by (simp add: push_bit_eq_mult)
  finally show ?thesis .
qed

lemma tls_len_unat:
  fixes h l :: byte
  shows "unat (push_bit 8 (ucast h) OR ucast l :: 32 word) = 256 * unat h + unat l"
proof -
  have "256 * unat h + unat l < 2 ^ 32" using unat_byte [of h] unat_byte [of l] by simp
  then have "unat (word_of_nat (256 * unat h + unat l) :: 32 word) = 256 * unat h + unat l"
    by (simp only: unat_of_nat) simp
  then show ?thesis by (simp only: tls_len_word)
qed

lemma ucast_byte_of_nat: "(ucast (w :: 32 word) :: byte) = word_of_nat (unat w)"
  by simp

lemma ucast_drop_bit8: "(ucast (drop_bit 8 (w :: 32 word)) :: byte) = word_of_nat (unat w div 256)"
proof -
  have "(ucast (drop_bit 8 w) :: byte) = word_of_nat (unat (drop_bit 8 w))" by simp
  also have "unat (drop_bit 8 w) = unat w div 256"
    by (simp add: drop_bit_eq_div unat_div)
  finally show ?thesis .
qed

lemma be_nat_pair: "be_nat [h, l] = 256 * unat h + unat l"
  by (simp add: be_nat_def)

lemma drop_11_of_13:
  assumes "length (hdr :: 'x list) = 13"
  shows "drop 11 hdr = [hdr ! 11, hdr ! 12]"
proof -
  have "drop 11 hdr = hdr ! 11 # drop 12 hdr"
    using assms Cons_nth_drop_Suc [of 11 hdr] by simp
  moreover have "drop 12 hdr = hdr ! 12 # drop 13 hdr"
    using assms Cons_nth_drop_Suc [of 12 hdr] by simp
  ultimately show ?thesis using assms by simp
qed

lemma update_last_two:
  assumes "length (hdr :: 'x list) = 13"
  shows "hdr[11 := x, 12 := y] = take 11 hdr @ [x, y]"
proof -
  have "hdr = take 11 hdr @ [hdr ! 11, hdr ! 12]"
    using drop_11_of_13 [OF assms] append_take_drop_id [of 11 hdr] by simp
  then have "hdr[11 := x, 12 := y] = (take 11 hdr @ [hdr ! 11, hdr ! 12])[11 := x, 12 := y]"
    by simp
  also have "\<dots> = take 11 hdr @ [x, y]"
    using assms by (simp add: list_update_append)
  finally show ?thesis .
qed

text \<open>The complete behaviour of the case on a 13 byte header.\<close>

lemma ctrl_tls1_aad_header:
  assumes "length hdr = 13"
  defines "L \<equiv> be_nat (drop 11 hdr)"
  shows "ctrl_tls1_aad malloc_ok a arg (Bytes hdr) =
     (if arg \<noteq> 13 then Some (0, a)
      else if \<not> malloc_ok then Some (0, a\<lparr>aad := None\<rparr>)
      else if L < 8 \<or> (\<not> enc a \<and> L - 8 < 16)
        then Some (0, a\<lparr>aad := Some hdr, aadLen := 13\<rparr>)
      else Some (16, a\<lparr>aad := Some (take 11 hdr @ be16 (L - 8 - (if enc a then 0 else 16))),
                        aadLen := 13, tls := True\<rparr>))"
proof -
  let ?w = "push_bit 8 (ucast (hdr ! 11)) OR ucast (hdr ! 12) :: 32 word"
  have L: "unat ?w = L"
    unfolding L_def drop_11_of_13 [OF assms(1)] by (simp add: tls_len_unat be_nat_pair)
  have L16: "L < 65536"
    using unat_byte [of "hdr ! 11"] unat_byte [of "hdr ! 12"]
    unfolding L_def drop_11_of_13 [OF assms(1)] by (simp add: be_nat_pair)
  have cp: "XMEMCPY (OPENSSL_malloc 13) 0 hdr 0 13 = Some hdr"
    using assms(1) by (simp add: XMEMCPY_Some OPENSSL_malloc_def)
  have lt8: "?w < 8 \<longleftrightarrow> L < 8"
    by (simp add: word_less_nat_alt L)
  have sub8: "unat (?w - 8) = L - 8" if "\<not> L < 8"
  proof -
    have "(8 :: 32 word) \<le> ?w" using that by (simp add: word_le_nat_alt L)
    then show ?thesis by (simp add: unat_sub L)
  qed
  have lt16: "?w - 8 < 16 \<longleftrightarrow> L - 8 < 16" if "\<not> L < 8"
    by (simp add: word_less_nat_alt sub8 [OF that])
  have sub24: "unat (?w - 24) = L - 24" if "\<not> L < 8" "\<not> L - 8 < 16"
  proof -
    have "(24 :: 32 word) \<le> ?w" using that by (simp add: word_le_nat_alt L)
    then show ?thesis by (simp add: unat_sub L)
  qed
  have wr: "hdr[11 := ucast (drop_bit 8 w), 12 := ucast w] = take 11 hdr @ be16 (unat w)"
    for w :: "32 word"
    unfolding update_last_two [OF assms(1)] be16_def ucast_drop_bit8 by simp
  show ?thesis
  proof (cases "arg = 13 \<and> malloc_ok")
    case False
    then show ?thesis by (auto simp: ctrl_tls1_aad_def EVP_AEAD_TLS1_AAD_LEN_def)
  next
    case True
    then have arg: "arg = 13" and m: malloc_ok by simp_all
    show ?thesis
    proof (cases "L < 8")
      case True
      then show ?thesis
        by (simp add: ctrl_tls1_aad_def gcm_consts arg m ptr_bytes_def cp Let_def lt8)
    next
      case nl: False
      show ?thesis
      proof (cases "enc a")
        case True
        then show ?thesis using nl
          by (simp add: ctrl_tls1_aad_def gcm_consts arg m ptr_bytes_def cp Let_def lt8 wr sub8)
      next
        case False
        then show ?thesis using nl
          by (simp add: ctrl_tls1_aad_def gcm_consts arg m ptr_bytes_def cp Let_def lt8 lt16 wr
                sub24)
      qed
    qed
  qed
qed

subsection \<open>C integer conversions\<close>

lemma c_int_small: "n < 2 ^ 31 \<Longrightarrow> c_int n = int n"
proof -
  assume n: "n < 2 ^ 31"
  have "word_of_nat n = (word_of_int (int n) :: 32 word)" by simp
  then have "c_int n = (int n + 2 ^ 31) mod 2 ^ 32 - 2 ^ 31"
    unfolding c_int_def by (simp only: int_word_sint) simp
  also have "\<dots> = int n" using n by simp
  finally show ?thesis .
qed

lemma c_size_t_small: "0 \<le> i \<Longrightarrow> i < 2 ^ 63 \<Longrightarrow> c_size_t i = nat i"
proof -
  assume i: "0 \<le> i" "i < 2 ^ 63"
  have "uint (word_of_int i :: 64 word) = i mod 2 ^ 64" by (simp add: uint_word_of_int)
  also have "\<dots> = i" using i by simp
  finally show ?thesis unfolding c_size_t_def by (simp only: unat_eq_nat_uint)
qed

lemma c_word32_small: "0 \<le> i \<Longrightarrow> i < 2 ^ 32 \<Longrightarrow> c_word32 i = nat i"
proof -
  assume i: "0 \<le> i" "i < 2 ^ 32"
  have "uint (word_of_int i :: 32 word) = i mod 2 ^ 32" by (simp add: uint_word_of_int)
  also have "\<dots> = i" using i by simp
  finally show ?thesis unfolding c_word32_def by (simp only: unat_eq_nat_uint)
qed

lemma unat_word32_small: "n < 2 ^ 32 \<Longrightarrow> unat (word_of_nat n :: 32 word) = n"
  by (simp add: unat_of_nat)

lemma c_int_nonneg_bound: "c_int n < 2 ^ 31" "- (2 ^ 31) \<le> c_int n"
  unfolding c_int_def using sint_lt [of "word_of_nat n :: 32 word"] sint_ge [of "word_of_nat n :: 32 word"]
  by simp_all

subsection \<open>AAD-only calls\<close>

lemma OPENSSL_realloc_length: "length (OPENSSL_realloc p n) = n"
  by (cases p) (simp_all add: OPENSSL_realloc_def)

lemma OPENSSL_realloc_take: "take n (OPENSSL_realloc p (n + k)) = OPENSSL_realloc p n"
  by (cases p) (auto simp: OPENSSL_realloc_def min_def)

lemma OPENSSL_realloc_same: "length b = n \<Longrightarrow> OPENSSL_realloc (Some b) n = b"
  by (simp add: OPENSSL_realloc_def)

lemma aad_push_result:
  assumes "cipher_data ctx = Some a" and "\<not> tls a" and "length inp < 2 ^ 31"
  shows "we_aes_gcm_cipher W True ctx None inp =
     (if 0 \<le> aadLen a \<and> aadLen a + int (length inp) < 2 ^ 31
      then Some (0, ctx\<lparr>cipher_data := Some
                   (a\<lparr>aad := Some (OPENSSL_realloc (aad a) (nat (aadLen a)) @ inp),
                      aadLen := aadLen a + int (length inp)\<rparr>)\<rparr>, None)
      else None)"
proof (cases "0 \<le> aadLen a \<and> aadLen a + int (length inp) < 2 ^ 31")
  case False
  then show ?thesis using assms
    by (auto simp: we_aes_gcm_cipher_def Let_def c_int_small)
next
  case True
  let ?n = "nat (aadLen a)" and ?k = "length inp"
  have sz: "c_size_t (aadLen a + int ?k) = ?n + ?k"
    using True by (simp add: c_size_t_small nat_add_distrib)
  have sz0: "c_size_t (aadLen a) = ?n" using True by (simp add: c_size_t_small)
  have "int (?n + ?k) < 2 ^ 31" using True by simp
  then have "?n + ?k < 2 ^ 31" by (simp only: of_nat_less_numeral_power_cancel_iff)
  then have "c_int (?n + ?k) = int (?n + ?k)" by (rule c_int_small)
  then have len: "c_int (?n + ?k) = aadLen a + int ?k" using True by simp
  have cp: "XMEMCPY (OPENSSL_realloc (aad a) (?n + ?k)) ?n inp 0 ?k
              = Some (OPENSSL_realloc (aad a) ?n @ inp)"
    by (simp add: XMEMCPY_Some OPENSSL_realloc_length OPENSSL_realloc_take)
  show ?thesis using assms True
    by (simp add: we_aes_gcm_cipher_def Let_def c_int_small sz sz0 len cp)
qed


lemma aad_only_tls_short:
  assumes "cipher_data ctx = Some a" and "tls a" and "inp \<noteq> []" and "length inp < 8"
  shows "we_aes_gcm_cipher W ok ctx None inp = None"
  using assms
  by (simp add: we_aes_gcm_cipher_def we_aes_gcm_tls_cipher_def Let_def XMEMCPY_def slice_def
        gcm_consts)

lemma aad_only_no_session:
  "cipher_data ctx = None \<Longrightarrow> we_aes_gcm_cipher W ok ctx out inp = Some (0, ctx, out)"
  by (simp add: we_aes_gcm_cipher_def)

lemma aad_pushes_split:
  fixes ctx :: "'a EVP_CIPHER_CTX"
  shows "aad_pushes W [(True, [97, 98]), (True, [99, 100]), (True, [101, 102])] ctx
       = aad_pushes W [(True, [97, 98, 99, 100, 101, 102])] ctx"
proof (cases "cipher_data ctx")
  case None
  then show ?thesis by (simp add: aad_only_no_session)
next
  case (Some a)
  show ?thesis
  proof (cases "tls a")
    case True
    then show ?thesis using Some by (simp add: aad_only_tls_short)
  next
    case False
    let ?R = "OPENSSL_realloc (aad a) (nat (aadLen a))"
    let ?c1 = "ctx\<lparr>cipher_data := Some (a\<lparr>aad := Some (?R @ [97, 98]), aadLen := aadLen a + 2\<rparr>)\<rparr>"
    let ?c2 = "ctx\<lparr>cipher_data := Some (a\<lparr>aad := Some (?R @ [97, 98, 99, 100]), aadLen := aadLen a + 4\<rparr>)\<rparr>"
    let ?c3 = "ctx\<lparr>cipher_data := Some (a\<lparr>aad := Some (?R @ [97, 98, 99, 100, 101, 102]), aadLen := aadLen a + 6\<rparr>)\<rparr>"
    have p1: "we_aes_gcm_cipher W True ctx None [97, 98] =
               (if 0 \<le> aadLen a \<and> aadLen a + 2 < 2 ^ 31 then Some (0, ?c1, None) else None)"
      using aad_push_result [OF Some False, of "[97, 98]" W] by simp
    have p6: "we_aes_gcm_cipher W True ctx None [97, 98, 99, 100, 101, 102] =
               (if 0 \<le> aadLen a \<and> aadLen a + 6 < 2 ^ 31 then Some (0, ?c3, None) else None)"
      using aad_push_result [OF Some False, of "[97, 98, 99, 100, 101, 102]" W] by simp
    have r1: "OPENSSL_realloc (Some (?R @ [97, 98])) (nat (aadLen a + 2)) = ?R @ [97, 98]"
      if "0 \<le> aadLen a"
      by (rule OPENSSL_realloc_same) (use that in \<open>simp add: OPENSSL_realloc_length nat_add_distrib\<close>)
    have r2: "OPENSSL_realloc (Some (?R @ [97, 98, 99, 100])) (nat (aadLen a + 4))
                = ?R @ [97, 98, 99, 100]" if "0 \<le> aadLen a"
      by (rule OPENSSL_realloc_same) (use that in \<open>simp add: OPENSSL_realloc_length nat_add_distrib\<close>)
    have p2: "we_aes_gcm_cipher W True ?c1 None [99, 100] =
               (if aadLen a + 4 < 2 ^ 31 then Some (0, ?c2, None) else None)"
      if "0 \<le> aadLen a"
      using aad_push_result [of ?c1 _ "[99, 100]" W] False that by (simp add: r1)
    have p3: "we_aes_gcm_cipher W True ?c2 None [101, 102] =
               (if aadLen a + 6 < 2 ^ 31 then Some (0, ?c3, None) else None)"
      if "0 \<le> aadLen a"
      using aad_push_result [of ?c2 _ "[101, 102]" W] False that by (simp add: r2)
    show ?thesis
    proof (cases "0 \<le> aadLen a")
      case False
      then show ?thesis by (simp add: p1 p6)
    next
      case True
      show ?thesis by (simp add: p1 p6 p2 [OF True] p3 [OF True] True)
    qed
  qed
qed

lemmas engine_eval =
  we_aes_gcm_cipher_def we_aes_gcm_tls_cipher_def XMEMCPY_def slice_def patch_def c_int_def
  c_word32_def c_size_t_def OPENSSL_realloc_def aad_arg_def gcm_consts Let_def
  demo_wc_def demo_tag_def demo_ctx_def demo_session_def

lemma session_ok_aad:
  assumes "session_ok a"
  shows "OPENSSL_realloc (aad a) (nat (aadLen a)) = aad_bytes a"
    and "aad_arg a = Some (aad a)"
    and "c_word32 (aadLen a) = nat (aadLen a)"
    and "0 \<le> aadLen a"
proof -
  from assms have r: "0 \<le> aadLen a" "aadLen a < 2 ^ 31"
    "(case aad a of None \<Rightarrow> aadLen a = 0 | Some b \<Rightarrow> aadLen a = int (length b))"
    by (auto simp: session_ok_def split: option.splits)
  show "0 \<le> aadLen a" by fact
  show "c_word32 (aadLen a) = nat (aadLen a)" using r by (simp add: c_word32_small)
  then show "aad_arg a = Some (aad a)"
    using r(3) by (auto simp: aad_arg_def slice_def split: option.splits)
  show "OPENSSL_realloc (aad a) (nat (aadLen a)) = aad_bytes a"
    using r(3) by (auto simp: OPENSSL_realloc_def aad_bytes_def split: option.splits)
qed

subsection \<open>Payload calls\<close>

lemma tls_cipher_clears_aad:
  assumes "we_aes_gcm_tls_cipher W a out inp = Some (ret, a', out')"
  shows "aad a' = None \<and> aadLen a' = 0"
  using assms
  by (auto simp: we_aes_gcm_tls_cipher_def Let_def bind_eq_Some_conv)

lemma tls_body_len:
  assumes "24 \<le> n" and "n < 2 ^ 32"
  shows "unat ((word_of_nat n :: 32 word) - 24) = n - 24"
proof -
  have n: "unat (word_of_nat n :: 32 word) = n" using assms(2) by (simp add: unat_of_nat)
  have "(24 :: 32 word) \<le> word_of_nat n" using assms(1) by (simp add: word_le_nat_alt n)
  then show ?thesis by (simp add: unat_sub n)
qed

lemma session_ok_iv:
  assumes "session_ok a"
  shows "c_word32 (ivLen a) = nat (ivLen a)" and "c_size_t (ivLen a) = nat (ivLen a)"
    and "nat (ivLen a) \<le> 16" and "length (iv a) = 16" and "length (tag a) = 16"
    and "c_word32 (tagLen a) = nat (tagLen a)" and "nat (tagLen a) \<le> 16"
  using assms by (auto simp: session_ok_def c_word32_small c_size_t_small)

lemma one_shot_decrypt:
  assumes "cipher_data ctx = Some a" and "\<not> tls a" and "\<not> enc a" and "session_ok a"
    and "inp \<noteq> []" and "length inp < 2 ^ 32" and "length inp \<le> length ob"
    and "d_rc r = 0 \<Longrightarrow> length (aes_reg W (d_aes r)) = 16"
    and r: "r = wc_AesGcmDecrypt W (aes a) inp (take (nat (ivLen a)) (iv a))
                 (take (nat (tagLen a)) (tag a)) (aad a) (nat (aadLen a))"
  shows "we_aes_gcm_cipher W ok ctx (Some ob) inp =
     Some (c_int (length inp),
           ctx\<lparr>cipher_data := Some
             (a\<lparr>aes := d_aes r,
                iv := (if d_rc r = 0
                       then take (nat (ivLen a)) (aes_reg W (d_aes r)) @ drop (nat (ivLen a)) (iv a)
                       else iv a),
                aad := None, aadLen := 0\<rparr>)\<rparr>,
           Some (take (length inp) (d_out r) @ drop (min (length inp) (length (d_out r))) ob))"
proof -
  note iv = session_ok_iv [OF assms(4)]
  note ad = session_ok_aad [OF assms(4)]
  have n: "unat (word_of_nat (length inp) :: 32 word) = length inp"
    using assms(6) by (simp add: unat_of_nat)
  have s1: "slice inp 0 (length inp) = Some inp" by (simp add: slice_def)
  have s2: "slice (iv a) 0 (nat (ivLen a)) = Some (take (nat (ivLen a)) (iv a))"
    using iv by (simp add: slice_def)
  have s3: "slice (tag a) 0 (nat (tagLen a)) = Some (take (nat (tagLen a)) (tag a))"
    using iv by (simp add: slice_def)
  have p: "patch ob 0 (length inp) (d_out r)
             = Some (take (length inp) (d_out r) @ drop (min (length inp) (length (d_out r))) ob)"
    using assms(7) by (simp add: patch_def)
  have m: "XMEMCPY (iv a) 0 (aes_reg W (d_aes r)) 0 (nat (ivLen a))
             = Some (take (nat (ivLen a)) (aes_reg W (d_aes r)) @ drop (nat (ivLen a)) (iv a))"
    if "d_rc r = 0"
    using iv assms(8) [OF that] by (simp add: XMEMCPY_Some)
  show ?thesis
    using assms(1,2,3,5)
    by (simp add: we_aes_gcm_cipher_def Let_def n s1 s2 s3 iv ad r [symmetric] p m)
qed


lemma patch_length: "patch buf off n src = Some r \<Longrightarrow> length r = length buf"
  by (auto simp: patch_def split: if_splits)

lemma tls_encrypt:
  assumes "cipher_data ctx = Some a" and "tls a" and "enc a" and "session_ok a"
    and "24 \<le> length inp" and "length inp < 2 ^ 32" and "length inp \<le> length ob"
    and r: "r = wc_AesGcmEncrypt_ex W (aes a) (take (length inp - 24) (drop 8 inp))
                 (take (nat (ivLen a)) (iv a)) 16 (aad a) (nat (aadLen a))"
  shows "\<exists>o3. we_aes_gcm_cipher W ok ctx (Some ob) inp =
           Some (if e_rc r \<noteq> 0 then 0 else c_int (length inp),
                 ctx\<lparr>cipher_data := Some
                   (a\<lparr>aes := e_aes r,
                      iv := take (nat (ivLen a)) (e_iv r)
                              @ drop (min (nat (ivLen a)) (length (e_iv r))) (iv a),
                      aad := None, aadLen := 0\<rparr>)\<rparr>,
                 Some o3)
          \<and> length o3 = length ob
          \<and> take 8 o3 = take 8 (drop 4 (iv a))
          \<and> drop (length inp) o3 = drop (length inp) ob
          \<and> (length (e_out r) = length inp - 24 \<and> length (e_tag r) = 16 \<longrightarrow>
               o3 = take 8 (drop 4 (iv a)) @ e_out r @ e_tag r @ drop (length inp) ob)"
proof -
  note iv = session_ok_iv [OF assms(4)]
  note ad = session_ok_aad [OF assms(4)]
  let ?n = "length inp"
  define eiv where "eiv = take 8 (drop 4 (iv a))"
  define o1 where "o1 = eiv @ drop 8 ob"
  define ct where "ct = take (?n - 24) (e_out r)"
  define o2 where "o2 = take 8 o1 @ ct @ drop (8 + length ct) o1"
  define tg where "tg = take 16 (e_tag r)"
  define o3 where "o3 = take (?n - 16) o2 @ tg @ drop (?n - 16 + length tg) o2"
  have leiv: "length eiv = 8" using iv by (simp add: eiv_def)
  have lo1: "length o1 = length ob" using leiv assms(5,7) by (simp add: o1_def)
  have lct: "length ct \<le> ?n - 24" by (simp add: ct_def)
  have lo2: "length o2 = length ob" using lo1 lct assms(5,7) by (simp add: o2_def)
  have ltg: "length tg \<le> 16" by (simp add: tg_def)
  have lo3: "length o3 = length ob" using lo2 ltg assms(5,7) by (simp add: o3_def)
  have ne: "inp \<noteq> []" using assms(5) by auto
  have ge16: "16 \<le> ?n" using assms(5) by simp
  have body: "unat ((word_of_nat ?n :: 32 word) - 24) = ?n - 24"
    using assms(5,6) by (rule tls_body_len)
  have c1: "XMEMCPY ob 0 (iv a) 4 8 = Some o1"
    using iv assms(5,7) by (simp add: XMEMCPY_Some o1_def eiv_def)
  have s1: "slice inp 8 (?n - 24) = Some (take (?n - 24) (drop 8 inp))"
    using assms(5) by (simp add: slice_def)
  have s2: "slice (iv a) 0 (nat (ivLen a)) = Some (take (nat (ivLen a)) (iv a))"
    using iv by (simp add: slice_def)
  have b: "8 + (?n - 24) \<le> length ob" "?n - 16 + 16 \<le> length ob" "?n - 16 \<le> length ob"
    using assms(5,7) by linarith+
  have p2: "patch o1 8 (?n - 24) (e_out r) = Some o2"
    unfolding patch_def o2_def ct_def using lo1 b(1) by (simp add: min.commute)
  have p3: "patch o2 (?n - 16) 16 (e_tag r) = Some o3"
    unfolding patch_def o3_def tg_def using lo2 b(2) by (simp add: min.commute)
  have p4: "patch (iv a) 0 (nat (ivLen a)) (e_iv r)
              = Some (take (nat (ivLen a)) (e_iv r)
                       @ drop (min (nat (ivLen a)) (length (e_iv r))) (iv a))"
    using iv by (simp add: patch_def)
  have call: "we_aes_gcm_cipher W ok ctx (Some ob) inp =
           Some (if e_rc r \<noteq> 0 then 0 else c_int ?n,
                 ctx\<lparr>cipher_data := Some
                   (a\<lparr>aes := e_aes r,
                      iv := take (nat (ivLen a)) (e_iv r)
                              @ drop (min (nat (ivLen a)) (length (e_iv r))) (iv a),
                      aad := None, aadLen := 0\<rparr>)\<rparr>,
                 Some o3)"
    using assms(1,2,3) ne ge16
    by (simp add: we_aes_gcm_cipher_def we_aes_gcm_tls_cipher_def Let_def gcm_consts body c1 s1
          s2 iv ad r [symmetric] p2 p3 p4)
  have t8: "take 8 o3 = eiv"
    using lo2 lo1 leiv assms(5,7) by (simp add: o3_def o2_def o1_def)
  have d1: "drop k o1 = drop k ob" if "8 \<le> k" for k
    using that leiv by (simp add: o1_def)
  have d2: "drop k o2 = drop k ob" if "?n - 16 \<le> k" for k
  proof -
    have "8 + length ct \<le> k" using that lct assms(5) by linarith
    then have "drop k o2 = drop k o1"
      using lo1 b by (simp add: o2_def)
    also have "\<dots> = drop k ob" using that assms(5) by (intro d1) linarith
    finally show ?thesis .
  qed
  have d3: "drop ?n o3 = drop ?n ob"
  proof -
    have "?n - 16 + length tg \<le> ?n" using ltg ge16 by linarith
    then have "drop ?n o3 = drop ?n o2"
      using lo2 b ge16 by (simp add: o3_def)
    also have "\<dots> = drop ?n ob" by (intro d2) simp
    finally show ?thesis .
  qed
  have full: "o3 = eiv @ e_out r @ e_tag r @ drop ?n ob"
    if "length (e_out r) = ?n - 24" and "length (e_tag r) = 16"
  proof -
    have ct: "ct = e_out r" and tg: "tg = e_tag r" using that by (simp_all add: ct_def tg_def)
    have "8 + (?n - 24) = ?n - 16" using assms(5) by linarith
    then have o2: "o2 = eiv @ e_out r @ drop (?n - 16) ob"
      using leiv that(1) d1 [of "?n - 16"] assms(5) by (simp add: o2_def ct o1_def)
    have "?n - 16 + 16 = ?n" using ge16 by linarith
    then have "o3 = take (?n - 16) o2 @ e_tag r @ drop ?n ob"
      using that(2) d2 [of ?n] by (simp add: o3_def tg)
    moreover have "take (?n - 16) o2 = eiv @ e_out r"
      using leiv that(1) assms(5) by (simp add: o2)
    ultimately show ?thesis by simp
  qed
  from call lo3 t8 d3 full show ?thesis
    unfolding eiv_def by (intro exI [of _ o3]) simp
qed

lemma replicate_16:
  "replicate 16 x = [x, x, x, x, x, x, x, x, x, x, x, x, x, x, x, x]"
  by (simp add: numeral_eq_Suc)

lemma tls_zero_length:
  assumes "cipher_data ctx = Some a" and "tls a"
  shows "\<exists>ret. we_aes_gcm_cipher W ok ctx out [] =
           Some (ret, ctx\<lparr>cipher_data := Some (a\<lparr>aad := None, aadLen := 0\<rparr>)\<rparr>, out)"
  using assms by (simp add: we_aes_gcm_cipher_def we_aes_gcm_tls_cipher_def Let_def)

lemma tls_decrypt:
  assumes "cipher_data ctx = Some a" and "tls a" and "\<not> enc a" and "session_ok a"
    and "24 \<le> length inp" and "length inp < 2 ^ 32" and "length inp \<le> length ob"
  shows "we_aes_gcm_cipher W ok ctx (Some ob) inp \<noteq> None"
proof -
  note iv = session_ok_iv [OF assms(4)]
  note ad = session_ok_aad [OF assms(4)]
  let ?n = "length inp"
  define iv1 where "iv1 = take 4 (iv a) @ take 8 inp @ drop 12 (iv a)"
  have ne: "inp \<noteq> []" using assms(5) by auto
  have ge16: "16 \<le> ?n" using assms(5) by simp
  have body: "unat ((word_of_nat ?n :: 32 word) - 24) = ?n - 24"
    using assms(5,6) by (rule tls_body_len)
  have c1: "XMEMCPY (iv a) 4 inp 0 8 = Some iv1"
    using iv assms(5) by (simp add: XMEMCPY_Some iv1_def)
  have l1: "length iv1 = 16" using iv assms(5) by (simp add: iv1_def)
  have s1: "slice inp 8 (?n - 24) = Some (take (?n - 24) (drop 8 inp))"
    using assms(5) by (simp add: slice_def)
  have s2: "slice iv1 0 (nat (ivLen a)) = Some (take (nat (ivLen a)) iv1)"
    using iv l1 by (simp add: slice_def)
  have s3: "slice inp (?n - 16) 16 = Some (take 16 (drop (?n - 16) inp))"
    using ge16 by (simp add: slice_def)
  have b: "8 + (?n - 24) \<le> length ob" using assms(5,7) by linarith
  then obtain o1 where p: "patch ob 8 (?n - 24) src = Some (o1 src)" for src
    by (simp add: patch_def)
  show ?thesis
    using assms(1,2,3) ne ge16
    by (simp add: we_aes_gcm_cipher_def we_aes_gcm_tls_cipher_def Let_def gcm_consts body c1 s1
          s2 s3 iv ad p)
qed

lemma one_shot_encrypt:
  assumes "cipher_data ctx = Some a" and "\<not> tls a" and "enc a" and "session_ok a"
    and "inp \<noteq> []" and "length inp \<le> length ob"
    and "\<forall>x. length (aes_reg W x) = 16"
  shows "we_aes_gcm_cipher W ok ctx (Some ob) inp \<noteq> None"
proof -
  note iv = session_ok_iv [OF assms(4)]
  note ad = session_ok_aad [OF assms(4)]
  let ?n = "unat (word_of_nat (length inp) :: 32 word)"
  have n: "?n \<le> length inp" by (simp add: unat_of_nat)
  have s1: "slice inp 0 ?n = Some (take ?n inp)" using n by (simp add: slice_def)
  have s2: "slice (iv a) 0 (nat (ivLen a)) = Some (take (nat (ivLen a)) (iv a))"
    using iv by (simp add: slice_def)
  have pn: "?n \<le> length ob" using n assms(6) by linarith
  have "session_ok (a\<lparr>aes := x\<rparr>)" for x
    using assms(4) by (auto simp: session_ok_def split: option.splits)
  from session_ok_aad(2) [OF this] have ad': "aad_arg (a\<lparr>aes := x\<rparr>) = Some (aad a)" for x
    by simp
  have m: "XMEMCPY (take (nat (ivLen a)) src @ drop (min (nat (ivLen a)) (length src)) (iv a)) 0
              (aes_reg W x) 0 (nat (ivLen a))
            = Some (take (nat (ivLen a)) (aes_reg W x)
                     @ drop (nat (ivLen a))
                         (take (nat (ivLen a)) src
                           @ drop (min (nat (ivLen a)) (length src)) (iv a)))" for src x
    using iv assms(7) by (subst XMEMCPY_Some) (simp_all add: min_def)
  have p: "patch ob 0 ?n src = Some (take ?n src @ drop (min ?n (length src)) ob)" for src
    using pn by (simp add: patch_def)
  have pi: "patch (iv a) 0 (nat (ivLen a)) src
              = Some (take (nat (ivLen a)) src @ drop (min (nat (ivLen a)) (length src)) (iv a))"
    for src using iv by (simp add: patch_def)
  have pt: "patch (tag a) 0 16 src = Some (take 16 src @ drop (min 16 (length src)) (tag a))"
    for src using iv by (simp add: patch_def)
  show ?thesis
    using assms(1,2,3,5)
    by (simp add: we_aes_gcm_cipher_def Let_def s1 s2 iv ad ad' p pi pt m gcm_consts
             split: prod.splits)
qed


lemma payload_result_aad_cleared:
  assumes "cipher_data ctx = Some a" and "tls a \<or> (out \<noteq> None \<and> inp \<noteq> [])"
    and "we_aes_gcm_cipher W ok ctx out inp = Some (ret, ctx', out')"
  shows "\<exists>a'. ctx' = ctx\<lparr>cipher_data := Some a'\<rparr> \<and> aad a' = None \<and> aadLen a' = 0"
proof (cases "tls a")
  case True
  with assms(1,3) obtain a' where "we_aes_gcm_tls_cipher W a out inp = Some (ret, a', out')"
    and "ctx' = ctx\<lparr>cipher_data := Some a'\<rparr>"
    by (auto simp: we_aes_gcm_cipher_def bind_eq_Some_conv)
  then show ?thesis using tls_cipher_clears_aad by fastforce
next
  case False
  with assms(2) obtain ob where o: "out = Some ob" and i: "inp \<noteq> []" by auto
  from assms(3) have "\<exists>p. Some (c_int (length inp),
          ctx\<lparr>cipher_data := Some ((fst p)\<lparr>aad := None, aadLen := 0\<rparr>)\<rparr>, snd p)
        = Some (ret, ctx', out')"
    unfolding we_aes_gcm_cipher_def Let_def assms(1) o
    using False i
    by (simp only: option.case if_False bind.bind_lunit list.size(3) length_0_conv
          bind_eq_Some_conv option.distinct split_beta) blast
  then obtain p where "ctx' = ctx\<lparr>cipher_data := Some ((fst p)\<lparr>aad := None, aadLen := 0\<rparr>)\<rparr>"
    by auto
  then show ?thesis by (intro exI [of _ "(fst p)\<lparr>aad := None, aadLen := 0\<rparr>"]) simp
qed

lemma payload_call_defined:
  assumes "cipher_data ctx = Some a" and "session_ok a" and "\<forall>x. length (aes_reg W x) = 16"
    and "length inp \<le> length ob" and "length inp < 2 ^ 32"
    and "(tls a \<and> (inp = [] \<or> 24 \<le> length inp)) \<or> (\<not> tls a \<and> inp \<noteq> [])"
  shows "we_aes_gcm_cipher W ok ctx (Some ob) inp \<noteq> None"
proof (cases "tls a")
  case True
  show ?thesis
  proof (cases "inp = []")
    case e: True
    from tls_zero_length [OF assms(1) True, of W ok "Some ob"] show ?thesis
      unfolding e by auto
  next
    case False
    with True assms(6) have l: "24 \<le> length inp" by simp
    show ?thesis
    proof (cases "enc a")
      case e: True
      from tls_encrypt [OF assms(1) True e assms(2) l assms(5,4) refl, of W ok]
      show ?thesis by auto
    next
      case False
      from tls_decrypt [OF assms(1) True False assms(2) l assms(5,4)] show ?thesis .
    qed
  qed
next
  case False
  with assms(6) have ne: "inp \<noteq> []" by simp
  show ?thesis
  proof (cases "enc a")
    case True
    from one_shot_encrypt [OF assms(1) False True assms(2) ne assms(4,3)] show ?thesis .
  next
    case e: False
    from one_shot_decrypt [OF assms(1) False e assms(2) ne assms(5,4) _ refl, of W ok] assms(3)
    show ?thesis by simp
  qed
qed

section \<open>The claims\<close>

text \<open>
  C1. The claim: in one-shot mode a decrypt payload call fails when the primitive
  reports a tag mismatch, and hands no plaintext to the caller. The source sets
  \<open>ret = 0\<close> when \<open>wc_AesGcmDecrypt\<close> fails (line 289) and then overwrites it with
  \<open>ret = len\<close> (line 301): for every decrypt session and every payload of 1 to
  \<open>2 ^ 31 - 1\<close> bytes the call returns the payload length, the success value, whatever
  the primitive reports, and the output buffer holds whatever the primitive stored.
  The documentation of the function (lines 214 and 215) says 0 on failure.
\<close>

theorem decrypt_auth_failure_returns_len:
  fixes W :: "'a wolfcrypt" and a :: "'a we_AesGcm" and inp :: "byte list"
  assumes "cipher_data ctx = Some a" and "\<not> tls a" and "\<not> enc a" and "session_ok a"
    and "inp \<noteq> []" and "length inp < 2 ^ 31" and "length inp \<le> length ob"
  defines "r \<equiv> wc_AesGcmDecrypt W (aes a) inp (take (nat (ivLen a)) (iv a))
                 (take (nat (tagLen a)) (tag a)) (aad a) (nat (aadLen a))"
  assumes "d_rc r \<noteq> 0"
  shows "we_aes_gcm_cipher W ok ctx (Some ob) inp =
     Some (int (length inp),
           ctx\<lparr>cipher_data := Some (a\<lparr>aes := d_aes r, aad := None, aadLen := 0\<rparr>)\<rparr>,
           Some (take (length inp) (d_out r) @ drop (min (length inp) (length (d_out r))) ob))"
proof -
  have l: "length inp < 2 ^ 32" using assms(6) by simp
  have "a\<lparr>aes := d_aes r, iv := iv a, aad := None, aadLen := 0\<rparr>
          = a\<lparr>aes := d_aes r, aad := None, aadLen := 0\<rparr>" by simp
  with one_shot_decrypt [OF assms(1-5) l assms(7) _ r_def [THEN meta_eq_to_obj_eq], of ok]
       assms(9) c_int_small [OF assms(6)]
  show ?thesis by simp
qed

theorem decrypt_auth_failure_returns_len_witness:
  "we_aes_gcm_cipher demo_wc True
      (demo_ctx ((demo_session False (replicate 16 0))\<lparr>tagLen := 16\<rparr>)) (Some [0]) [1]
     = Some (1, demo_ctx ((demo_session False (replicate 16 0))\<lparr>tagLen := 16\<rparr>), Some [0])
   \<and> d_rc (wc_AesGcmDecrypt demo_wc () [1] (replicate 12 0) (replicate 16 0) None 0) = - 180"
proof -
  let ?a = "(demo_session False (replicate 16 0))\<lparr>tagLen := 16\<rparr>"
  have c: "cipher_data (demo_ctx ?a) = Some ?a" by (simp add: demo_ctx_def)
  have t: "\<not> tls ?a" and e: "\<not> enc ?a" by (simp_all add: demo_session_def)
  have ok: "session_ok ?a" by (simp add: session_ok_def demo_session_def)
  have i: "[1 :: byte] \<noteq> []" "length [1 :: byte] < 2 ^ 31" "length [1 :: byte] \<le> length [0 :: byte]"
    by simp_all
  have rc: "d_rc (wc_AesGcmDecrypt demo_wc () [1] (replicate 12 0) (replicate 16 0) None 0) = - 180"
    by (simp add: demo_wc_def demo_tag_def)
  have r: "wc_AesGcmDecrypt demo_wc (aes ?a) [1] (take (nat (ivLen ?a)) (iv ?a))
             (take (nat (tagLen ?a)) (tag ?a)) (aad ?a) (nat (aadLen ?a))
           = \<lparr>d_rc = - 180, d_aes = (), d_out = []\<rparr>"
    by (simp add: demo_wc_def demo_tag_def demo_session_def)
  have f: "d_rc (wc_AesGcmDecrypt demo_wc (aes ?a) [1] (take (nat (ivLen ?a)) (iv ?a))
             (take (nat (tagLen ?a)) (tag ?a)) (aad ?a) (nat (aadLen ?a))) \<noteq> 0"
    unfolding r by simp
  from decrypt_auth_failure_returns_len [OF c t e ok i f, of True]
  have "we_aes_gcm_cipher demo_wc True (demo_ctx ?a) (Some [0]) [1]
     = Some (1, demo_ctx ?a, Some [0])"
    unfolding r by (simp add: demo_ctx_def demo_session_def)
  with rc show ?thesis by simp
qed

text \<open>
  C2, as amended. For a session with \<open>ivLen = 12\<close>, a call of \<open>EVP_CTRL_GCM_IV_GEN\<close>
  with the 8 byte all-zero seed and length 8 copies the seed over the IV bytes 0 to 7
  and then increments the bytes from position 11 leftward towards position 4, stopping
  at the first byte that does not wrap from 0xFF to 0x00. The big-endian counter in the
  bytes 4 to 11 after the call is the low 32 bits of the counter before the call plus 1:
  it is greater by exactly 1 than the previous counter as long as that one is below
  \<open>2 ^ 32\<close>.
\<close>

theorem iv_gen_zero_seed_counter:
  assumes "cipher_data ctx = Some a" and "length (iv a) = 16" and "ivLen a = 12"
  shows "\<exists>v. we_aes_gcm_ctrl W m ctx EVP_CTRL_GCM_IV_GEN 8 (Bytes (replicate 8 0))
               = Some (1, ctx\<lparr>cipher_data := Some (a\<lparr>iv := v\<rparr>)\<rparr>, Bytes (replicate 8 0))
           \<and> v = replicate 4 0 @ be_incr (replicate 4 0 @ take 4 (drop 8 (iv a))) @ drop 12 (iv a)
           \<and> iv_counter (a\<lparr>iv := v\<rparr>) = iv_counter a mod 2 ^ 32 + 1
           \<and> (iv_counter a < 2 ^ 32 \<longrightarrow> iv_counter (a\<lparr>iv := v\<rparr>) = iv_counter a + 1)"
proof -
  from ctrl_iv_gen_zero_seed [OF assms(2,3)] obtain v where
    g: "ctrl_iv_gen a 8 (Bytes (replicate 8 0)) = Some (1, a\<lparr>iv := v\<rparr>)"
    and r: "v = replicate 4 0 @ be_incr (replicate 4 0 @ take 4 (drop 8 (iv a))) @ drop 12 (iv a)"
       "iv_counter (a\<lparr>iv := v\<rparr>) = iv_counter a mod 2 ^ 32 + 1"
       "iv_counter a < 2 ^ 32 \<longrightarrow> iv_counter (a\<lparr>iv := v\<rparr>) = iv_counter a + 1"
    by blast
  have "we_aes_gcm_ctrl W m ctx EVP_CTRL_GCM_IV_GEN 8 (Bytes (replicate 8 0))
               = Some (1, ctx\<lparr>cipher_data := Some (a\<lparr>iv := v\<rparr>)\<rparr>, Bytes (replicate 8 0))"
    using assms(1) by (simp add: we_aes_gcm_ctrl_def g)
  with r show ?thesis by blast
qed

theorem iv_gen_zero_seed_counter_witness:
  "we_aes_gcm_ctrl demo_wc True
      (demo_ctx (demo_session True [0,0,0,0, 0,0,0,0, 0,0,1,255, 0,0,0,0]))
      EVP_CTRL_GCM_IV_GEN 8 (Bytes (replicate 8 0))
     = Some (1, demo_ctx (demo_session True [0,0,0,0, 0,0,0,0, 0,0,2,0, 0,0,0,0]),
             Bytes (replicate 8 0))
   \<and> iv_counter (demo_session True [0,0,0,0, 0,0,0,0, 0,0,1,255, 0,0,0,0]) = 511
   \<and> iv_counter (demo_session True [0,0,0,0, 0,0,0,0, 0,0,2,0, 0,0,0,0]) = 512"
proof -
  let ?a = "demo_session True [0,0,0,0, 0,0,0,0, 0,0,1,255, 0,0,0,0]"
  have c: "cipher_data (demo_ctx ?a) = Some ?a" by (simp add: demo_ctx_def)
  have l: "length (iv ?a) = 16" and k: "ivLen ?a = 12" by (simp_all add: demo_session_def)
  have inc: "be_incr [0, 0, 0, 0, 0, 0, 1, 255] = [0, 0, 0, 0, 0, 0, 2, 0 :: byte]"
    by (simp add: be_incr_def)
  have r: "replicate 4 (0 :: byte) = [0, 0, 0, 0]" by (simp add: numeral_eq_Suc)
  have ctr: "iv_counter ?a = 511"
    by (simp add: iv_counter_def demo_session_def be_nat_def)
  have d8: "drop 8 (iv ?a) = [0, 0, 1, 255, 0, 0, 0, 0]" and d12: "drop 12 (iv ?a) = [0, 0, 0, 0]"
    by (simp_all add: demo_session_def)
  have upd: "?a\<lparr>iv := v\<rparr> = demo_session True v" for v by (simp add: demo_session_def)
  have upc: "demo_ctx ?a\<lparr>cipher_data := Some b\<rparr> = demo_ctx b" for b by (simp add: demo_ctx_def)
  from iv_gen_zero_seed_counter [OF c l k, of demo_wc True]
  obtain v where
    1: "we_aes_gcm_ctrl demo_wc True (demo_ctx ?a) EVP_CTRL_GCM_IV_GEN 8 (Bytes (replicate 8 0))
          = Some (1, demo_ctx (demo_session True v), Bytes (replicate 8 0))"
    and 2: "v = replicate 4 0 @ be_incr (replicate 4 0 @ take 4 (drop 8 (iv ?a))) @ drop 12 (iv ?a)"
    and 3: "iv_counter ?a < 2 ^ 32 \<longrightarrow> iv_counter (demo_session True v) = iv_counter ?a + 1"
    unfolding upd upc by blast
  have v: "v = [0,0,0,0, 0,0,0,0, 0,0,2,0, 0,0,0,0]"
    unfolding 2 d8 d12 by (simp add: r inc)
  from 1 3 show ?thesis unfolding v by (simp add: ctr)
qed

text \<open>
  C2 as stated fails: the seed is copied over the upper four bytes of the counter at
  every call. From the IV \<open>00 00 00 00 00 00 00 00 FF FF FF FF\<close> one call gives the
  counter \<open>2 ^ 32\<close> and the next call gives 1, not \<open>2 ^ 32 + 1\<close>. Starting from the
  all-zero IV, these are the calls number \<open>2 ^ 32\<close> and \<open>2 ^ 32 + 1\<close>
  (\<open>iv_gen_repeat_restarts\<close>).
\<close>

theorem iv_gen_counter_not_monotone:
  "we_aes_gcm_ctrl demo_wc True
      (demo_ctx (demo_session True [0,0,0,0, 0,0,0,0, 255,255,255,255, 0,0,0,0]))
      EVP_CTRL_GCM_IV_GEN 8 (Bytes [0,0,0,0, 0,0,0,0])
     = Some (1, demo_ctx (demo_session True [0,0,0,0, 0,0,0,1, 0,0,0,0, 0,0,0,0]),
             Bytes [0,0,0,0, 0,0,0,0])
   \<and> we_aes_gcm_ctrl demo_wc True
      (demo_ctx (demo_session True [0,0,0,0, 0,0,0,1, 0,0,0,0, 0,0,0,0]))
      EVP_CTRL_GCM_IV_GEN 8 (Bytes [0,0,0,0, 0,0,0,0])
     = Some (1, demo_ctx (demo_session True [0,0,0,0, 0,0,0,0, 0,0,0,1, 0,0,0,0]),
             Bytes [0,0,0,0, 0,0,0,0])
   \<and> iv_counter (demo_session True [0,0,0,0, 0,0,0,1, 0,0,0,0, 0,0,0,0]) = 4294967296
   \<and> iv_counter (demo_session True [0,0,0,0, 0,0,0,0, 0,0,0,1, 0,0,0,0]) = 1"
  by (simp add: we_aes_gcm_ctrl_def ctrl_iv_gen_def ptr_bytes_def XMEMCPY_def slice_def patch_def
        demo_ctx_def demo_session_def GCM_NONCE_MAX_SZ_def iv_gen_loop.simps iv_counter_def
        be_nat_def)

text \<open>
  C3, as amended. A \<open>EVP_CTRL_AEAD_TLS1_AAD\<close> command with a 13 byte header whose last
  two bytes encode \<open>L\<close> big-endian fails (returns 0) if the length argument is not 13,
  or if the allocation of the AAD buffer fails, or if \<open>L\<close> is below the explicit IV size
  8, or, for a decrypt session, if \<open>L - 8\<close> is below the tag size 16. Otherwise it stores
  the header as the session AAD with the length field rewritten to \<open>L - 8\<close> (\<open>L - 24\<close>
  for decrypt), sets the TLS mode and returns the tag size 16.
\<close>

theorem set_tls_aad_result:
  assumes "cipher_data ctx = Some a" and "length hdr = 13"
  shows "we_aes_gcm_ctrl W malloc_ok ctx EVP_CTRL_AEAD_TLS1_AAD arg (Bytes hdr) =
     (let L = be_nat (drop 11 hdr) in
      if arg \<noteq> 13 then Some (0, ctx, Bytes hdr)
      else if \<not> malloc_ok then Some (0, ctx\<lparr>cipher_data := Some (a\<lparr>aad := None\<rparr>)\<rparr>, Bytes hdr)
      else if L < 8 \<or> (\<not> enc a \<and> L - 8 < 16)
        then Some (0, ctx\<lparr>cipher_data := Some (a\<lparr>aad := Some hdr, aadLen := 13\<rparr>)\<rparr>, Bytes hdr)
      else Some (16, ctx\<lparr>cipher_data := Some
                  (a\<lparr>aad := Some (take 11 hdr @ be16 (L - 8 - (if enc a then 0 else 16))),
                     aadLen := 13, tls := True\<rparr>)\<rparr>, Bytes hdr))"
proof -
  have "ctx\<lparr>cipher_data := Some a\<rparr> = ctx" using assms(1) by simp
  then show ?thesis
    using assms(1)
    by (simp add: we_aes_gcm_ctrl_def ctrl_tls1_aad_header [OF assms(2)] Let_def)
qed

theorem set_tls_aad_result_witness:
  "we_aes_gcm_ctrl demo_wc True (demo_ctx (demo_session True (replicate 16 0)))
      EVP_CTRL_AEAD_TLS1_AAD 13 (Bytes [0,0,0,0,0,0,0,1, 23, 3,3, 0,40])
     = Some (16, demo_ctx ((demo_session True (replicate 16 0))
                  \<lparr>aad := Some [0,0,0,0,0,0,0,1, 23, 3,3, 0,32], aadLen := 13, tls := True\<rparr>),
             Bytes [0,0,0,0,0,0,0,1, 23, 3,3, 0,40])
   \<and> we_aes_gcm_ctrl demo_wc True (demo_ctx (demo_session False (replicate 16 0)))
      EVP_CTRL_AEAD_TLS1_AAD 13 (Bytes [0,0,0,0,0,0,0,1, 23, 3,3, 1,24])
     = Some (16, demo_ctx ((demo_session False (replicate 16 0))
                  \<lparr>aad := Some [0,0,0,0,0,0,0,1, 23, 3,3, 1,0], aadLen := 13, tls := True\<rparr>),
             Bytes [0,0,0,0,0,0,0,1, 23, 3,3, 1,24])"
proof -
  let ?e = "demo_session True (replicate 16 0)" and ?d = "demo_session False (replicate 16 0)"
  let ?h = "[0,0,0,0,0,0,0,1, 23, 3,3, 0,40] :: byte list"
  let ?g = "[0,0,0,0,0,0,0,1, 23, 3,3, 1,24] :: byte list"
  have ce: "cipher_data (demo_ctx ?e) = Some ?e" and cd: "cipher_data (demo_ctx ?d) = Some ?d"
    by (simp_all add: demo_ctx_def)
  have lh: "length ?h = 13" and lg: "length ?g = 13" by simp_all
  have Lh: "be_nat (drop 11 ?h) = 40" and Lg: "be_nat (drop 11 ?g) = 280"
    by (simp_all add: be_nat_def)
  have e: "enc ?e" and d: "\<not> enc ?d" by (simp_all add: demo_session_def)
  have b32: "be16 32 = [0, 32]" and b256: "be16 256 = [1, 0]" by (simp_all add: be16_def)
  have upc: "demo_ctx x\<lparr>cipher_data := Some y\<rparr> = demo_ctx y" for x y :: "unit we_AesGcm"
    by (simp add: demo_ctx_def)
  from set_tls_aad_result [OF ce lh, of demo_wc True 13]
       set_tls_aad_result [OF cd lg, of demo_wc True 13]
  show ?thesis
    unfolding Lh Lg Let_def upc by (simp add: e d b32 b256)
qed

text \<open>
  C3 as stated lists three failure conditions and success otherwise. There is a fourth
  failure: with a header of 13 bytes, \<open>L = 40\<close> and an encrypt session, the call returns
  0 when \<open>OPENSSL_malloc\<close> returns NULL (lines 472 to 476).
\<close>

theorem set_tls_aad_malloc_failure:
  "we_aes_gcm_ctrl demo_wc False (demo_ctx (demo_session True (replicate 16 0)))
      EVP_CTRL_AEAD_TLS1_AAD 13 (Bytes [0,0,0,0,0,0,0,1, 23, 3,3, 0,40])
     = Some (0, demo_ctx (demo_session True (replicate 16 0)),
             Bytes [0,0,0,0,0,0,0,1, 23, 3,3, 0,40])"
  by (simp add: we_aes_gcm_ctrl_def ctrl_tls1_aad_def demo_ctx_def demo_session_def
        EVP_AEAD_TLS1_AAD_LEN_def)

text \<open>
  C4, as amended. For an encrypt session in TLS mode, an input of \<open>len\<close> bytes with
  \<open>24 \<le> len < 2 ^ 31\<close> and an output buffer of at least \<open>len\<close> bytes, a payload call
  writes the IV bytes 4 to 11 into the first 8 bytes of the output, hands the middle
  \<open>len - 24\<close> input bytes to the primitive, and returns \<open>len\<close> when the primitive
  succeeds and 0 when it fails; when the primitive stores \<open>len - 24\<close> bytes of
  ciphertext and 16 bytes of tag, the first \<open>len\<close> bytes of the output are the explicit
  IV, the ciphertext and the tag, in this order. A call of length 0 writes no output and
  returns 0.
\<close>

theorem tls_record_encrypt:
  fixes W :: "'a wolfcrypt" and a :: "'a we_AesGcm" and inp :: "byte list"
  assumes "cipher_data ctx = Some a" and "tls a" and "enc a" and "session_ok a"
    and "24 \<le> length inp" and "length inp < 2 ^ 31" and "length inp \<le> length ob"
  defines "r \<equiv> wc_AesGcmEncrypt_ex W (aes a) (take (length inp - 24) (drop 8 inp))
                 (take (nat (ivLen a)) (iv a)) 16 (aad a) (nat (aadLen a))"
  shows "(\<exists>o3. we_aes_gcm_cipher W ok ctx (Some ob) inp =
             Some (if e_rc r \<noteq> 0 then 0 else int (length inp),
                   ctx\<lparr>cipher_data := Some
                     (a\<lparr>aes := e_aes r,
                        iv := take (nat (ivLen a)) (e_iv r)
                                @ drop (min (nat (ivLen a)) (length (e_iv r))) (iv a),
                        aad := None, aadLen := 0\<rparr>)\<rparr>,
                   Some o3)
          \<and> length o3 = length ob
          \<and> take 8 o3 = take 8 (drop 4 (iv a))
          \<and> drop (length inp) o3 = drop (length inp) ob
          \<and> (length (e_out r) = length inp - 24 \<and> length (e_tag r) = 16 \<longrightarrow>
               o3 = take 8 (drop 4 (iv a)) @ e_out r @ e_tag r @ drop (length inp) ob))
       \<and> we_aes_gcm_cipher W ok ctx out [] =
             Some (0, ctx\<lparr>cipher_data := Some (a\<lparr>aad := None, aadLen := 0\<rparr>)\<rparr>, out)"
proof
  have l: "length inp < 2 ^ 32" using assms(6) by simp
  from tls_encrypt [OF assms(1-5) l assms(7) r_def [THEN meta_eq_to_obj_eq], of ok]
  show "\<exists>o3. we_aes_gcm_cipher W ok ctx (Some ob) inp =
             Some (if e_rc r \<noteq> 0 then 0 else int (length inp),
                   ctx\<lparr>cipher_data := Some
                     (a\<lparr>aes := e_aes r,
                        iv := take (nat (ivLen a)) (e_iv r)
                                @ drop (min (nat (ivLen a)) (length (e_iv r))) (iv a),
                        aad := None, aadLen := 0\<rparr>)\<rparr>,
                   Some o3)
          \<and> length o3 = length ob
          \<and> take 8 o3 = take 8 (drop 4 (iv a))
          \<and> drop (length inp) o3 = drop (length inp) ob
          \<and> (length (e_out r) = length inp - 24 \<and> length (e_tag r) = 16 \<longrightarrow>
               o3 = take 8 (drop 4 (iv a)) @ e_out r @ e_tag r @ drop (length inp) ob)"
    unfolding c_int_small [OF assms(6)] .
  have "c_int 0 = 0" by (simp add: c_int_def)
  then show "we_aes_gcm_cipher W ok ctx out [] =
             Some (0, ctx\<lparr>cipher_data := Some (a\<lparr>aad := None, aadLen := 0\<rparr>)\<rparr>, out)"
    using assms(1,2,3)
    by (simp add: we_aes_gcm_cipher_def we_aes_gcm_tls_cipher_def Let_def)
qed

theorem tls_record_encrypt_witness:
  "we_aes_gcm_cipher demo_wc True (demo_ctx (demo_tls_session True)) (Some demo_record)
      demo_record
     = Some (26, demo_ctx ((demo_tls_session True)\<lparr>aad := None, aadLen := 0\<rparr>),
             Some [5, 6, 7, 8, 9, 10, 11, 12, 74, 122, 228, 228, 228, 228, 228, 228, 228, 228,
                   228, 228, 228, 228, 228, 228, 228, 228])
   \<and> we_aes_gcm_cipher demo_wc True (demo_ctx (demo_tls_session True)) (Some []) []
     = Some (0, demo_ctx ((demo_tls_session True)\<lparr>aad := None, aadLen := 0\<rparr>), Some [])"
proof -
  let ?a = "demo_tls_session True"
  have c: "cipher_data (demo_ctx ?a) = Some ?a" by (simp add: demo_ctx_def)
  have t: "tls ?a" and e: "enc ?a" by (simp_all add: demo_tls_session_def demo_session_def)
  have ok: "session_ok ?a"
    by (simp add: session_ok_def demo_tls_session_def demo_session_def)
  have i: "24 \<le> length demo_record" "length demo_record < 2 ^ 31"
    "length demo_record \<le> length demo_record" by (simp_all add: demo_record_def)
  have r: "wc_AesGcmEncrypt_ex demo_wc (aes ?a) (take (length demo_record - 24) (drop 8 demo_record))
             (take (nat (ivLen ?a)) (iv ?a)) 16 (aad ?a) (nat (aadLen ?a))
           = \<lparr>e_rc = 0, e_aes = (), e_out = [74, 122],
               e_iv = [1, 2, 3, 4, 5, 6, 7, 8, 9, 10, 11, 12],
               e_tag = [228, 228, 228, 228, 228, 228, 228, 228,
                        228, 228, 228, 228, 228, 228, 228, 228]\<rparr>"
    by (simp add: demo_wc_def demo_tag_def demo_tls_session_def demo_session_def demo_record_def
          replicate_16)
  have u: "demo_ctx ?a\<lparr>cipher_data := Some b\<rparr> = demo_ctx b" for b
    by (simp add: demo_ctx_def)
  have v: "take 8 (drop 4 (iv ?a)) = [5, 6, 7, 8, 9, 10, 11, 12]" "nat (ivLen ?a) = 12"
    by (simp_all add: demo_tls_session_def demo_session_def)
  from tls_record_encrypt [OF c t e ok i, of demo_wc True "Some []"]
  show ?thesis
    unfolding r u
    by (clarsimp simp: v demo_tls_session_def demo_session_def demo_ctx_def demo_record_def)
qed

text \<open>
  C4 as stated covers every non-zero length. For \<open>0 < len < 24\<close> the subtraction
  \<open>(word32)len - 8 - 16\<close> of lines 137 and 138 wraps around: with one byte of input the
  primitive is handed \<open>2 ^ 32 - 23\<close> bytes at \<open>in + 8\<close> and the tag pointer
  \<open>out + len - 16\<close> lies before the buffer. The call has no defined result.
\<close>

theorem tls_record_encrypt_short_input:
  "we_aes_gcm_cipher demo_wc True (demo_ctx (demo_tls_session True)) (Some (replicate 32 0)) [7]
     = None"
  by (simp add: engine_eval demo_tls_session_def)

text \<open>
  C5, as amended. Take a session that satisfies the representation invariant, an input
  of \<open>len\<close> bytes and an output buffer of at least \<open>len\<close> bytes. A payload call in TLS
  mode with \<open>len = 0\<close> or \<open>24 \<le> len\<close>, or in one-shot mode with \<open>len > 0\<close>, encrypt
  or decrypt, returns and leaves the session with no AAD buffer and \<open>aadLen = 0\<close>,
  whatever the primitive reports. A payload call of length 0 in one-shot mode returns 0
  and leaves the session, the AAD included, as it was.
\<close>

theorem payload_call_clears_aad:
  assumes "cipher_data ctx = Some a" and "session_ok a" and "\<forall>x. length (aes_reg W x) = 16"
    and "length inp \<le> length ob" and "length inp < 2 ^ 32"
  shows "((tls a \<and> (inp = [] \<or> 24 \<le> length inp)) \<or> (\<not> tls a \<and> inp \<noteq> []) \<longrightarrow>
            (\<exists>ret a' out'. we_aes_gcm_cipher W ok ctx (Some ob) inp
                                = Some (ret, ctx\<lparr>cipher_data := Some a'\<rparr>, out')
                            \<and> aad a' = None \<and> aadLen a' = 0))
       \<and> (\<not> tls a \<longrightarrow> we_aes_gcm_cipher W ok ctx (Some ob) [] = Some (0, ctx, Some ob))"
proof (intro conjI impI)
  assume h: "(tls a \<and> (inp = [] \<or> 24 \<le> length inp)) \<or> (\<not> tls a \<and> inp \<noteq> [])"
  from payload_call_defined [OF assms h, of ok]
  obtain ret ctx' out' where r: "we_aes_gcm_cipher W ok ctx (Some ob) inp = Some (ret, ctx', out')"
    by (cases "we_aes_gcm_cipher W ok ctx (Some ob) inp") auto
  have "tls a \<or> (Some ob \<noteq> None \<and> inp \<noteq> [])" using h by auto
  from payload_result_aad_cleared [OF assms(1) this r] r
  show "\<exists>ret a' out'. we_aes_gcm_cipher W ok ctx (Some ob) inp
                                = Some (ret, ctx\<lparr>cipher_data := Some a'\<rparr>, out')
                            \<and> aad a' = None \<and> aadLen a' = 0"
    by auto
next
  assume "\<not> tls a"
  then show "we_aes_gcm_cipher W ok ctx (Some ob) [] = Some (0, ctx, Some ob)"
    using assms(1) by (simp add: we_aes_gcm_cipher_def)
qed

theorem payload_call_clears_aad_witness:
  "we_aes_gcm_cipher demo_wc True
      (demo_ctx ((demo_session False (replicate 16 0))
                   \<lparr>tagLen := 16, aad := Some [97, 98], aadLen := 2\<rparr>)) (Some [0]) [1]
     = Some (1, demo_ctx ((demo_session False (replicate 16 0))\<lparr>tagLen := 16\<rparr>), Some [0])
   \<and> we_aes_gcm_cipher demo_wc True (demo_ctx (demo_tls_session False)) (Some demo_record)
        demo_record
     = Some (0, demo_ctx ((demo_session False [1, 2, 3, 4, 0, 0, 0, 0, 0, 0, 0, 0, 0, 0, 0, 0])
                            \<lparr>tls := True\<rparr>),
             Some demo_record)
   \<and> aad ((demo_session False (replicate 16 0))\<lparr>tagLen := 16\<rparr>) = None
   \<and> aadLen ((demo_session False (replicate 16 0))\<lparr>tagLen := 16\<rparr>) = 0
   \<and> aad ((demo_session False [1, 2, 3, 4, 0, 0, 0, 0, 0, 0, 0, 0, 0, 0, 0, 0])\<lparr>tls := True\<rparr>)
       = None
   \<and> aadLen ((demo_session False [1, 2, 3, 4, 0, 0, 0, 0, 0, 0, 0, 0, 0, 0, 0, 0])\<lparr>tls := True\<rparr>)
       = 0"
proof -
  let ?a = "(demo_session False (replicate 16 0))\<lparr>tagLen := 16, aad := Some [97, 98], aadLen := 2\<rparr>"
  let ?a' = "(demo_session False (replicate 16 0))\<lparr>tagLen := 16\<rparr>"
  let ?b = "demo_tls_session False"
  let ?b' = "(demo_session False [1, 2, 3, 4, 0, 0, 0, 0, 0, 0, 0, 0, 0, 0, 0, 0])\<lparr>tls := True\<rparr>"
  have ca: "cipher_data (demo_ctx ?a) = Some ?a" and cb: "cipher_data (demo_ctx ?b) = Some ?b"
    by (simp_all add: demo_ctx_def)
  have oa: "session_ok ?a" and ob: "session_ok ?b"
    by (simp_all add: session_ok_def demo_session_def demo_tls_session_def)
  have rg: "\<forall>x. length (aes_reg demo_wc x) = 16" by (simp add: demo_wc_def)
  have la: "length [1 :: byte] \<le> length [0 :: byte]" "length [1 :: byte] < 2 ^ 32"
    and lb: "length demo_record \<le> length demo_record" "length demo_record < 2 ^ 32"
    by (simp_all add: demo_record_def)
  have ha: "(tls ?a \<and> ([1 :: byte] = [] \<or> 24 \<le> length [1 :: byte])) \<or> (\<not> tls ?a \<and> [1 :: byte] \<noteq> [])"
    by (simp add: demo_session_def)
  have hb: "(tls ?b \<and> (demo_record = [] \<or> 24 \<le> length demo_record))
              \<or> (\<not> tls ?b \<and> demo_record \<noteq> [])"
    by (simp add: demo_record_def demo_tls_session_def)
  have ra: "we_aes_gcm_cipher demo_wc True (demo_ctx ?a) (Some [0]) [1]
              = Some (1, demo_ctx ?a', Some [0])"
    by (simp add: engine_eval)
  have rb: "we_aes_gcm_cipher demo_wc True (demo_ctx ?b) (Some demo_record) demo_record
              = Some (0, demo_ctx ?b', Some demo_record)"
    by (simp add: engine_eval demo_tls_session_def demo_record_def)
  from payload_call_clears_aad [OF ca oa rg la, of True] ha
  obtain a' where "demo_ctx ?a' = demo_ctx ?a\<lparr>cipher_data := Some a'\<rparr>"
    and "aad a' = None \<and> aadLen a' = 0"
    unfolding ra by auto
  then have xa: "aad ?a' = None \<and> aadLen ?a' = 0" by (simp add: demo_ctx_def)
  from payload_call_clears_aad [OF cb ob rg lb, of True] hb
  obtain b' where "demo_ctx ?b' = demo_ctx ?b\<lparr>cipher_data := Some b'\<rparr>"
    and "aad b' = None \<and> aadLen b' = 0"
    unfolding rb by auto
  then have xb: "aad ?b' = None \<and> aadLen ?b' = 0" by (simp add: demo_ctx_def)
  from ra rb xa xb show ?thesis by simp
qed

text \<open>
  C5 as stated covers every payload call. In one-shot mode a payload call of length 0
  returns 0, the failure value, and leaves the pending AAD "ab" in place (lines 252
  to 254).
\<close>

theorem zero_length_payload_leaves_aad:
  "we_aes_gcm_cipher demo_wc True
      (demo_ctx ((demo_session False (replicate 16 0))\<lparr>aad := Some [97, 98], aadLen := 2\<rparr>))
      (Some [0]) []
     = Some (0, demo_ctx ((demo_session False (replicate 16 0))\<lparr>aad := Some [97, 98], aadLen := 2\<rparr>),
             Some [0])"
  by (simp add: we_aes_gcm_cipher_def demo_ctx_def demo_session_def)

text \<open>
  C6, as amended. In one-shot mode a payload call of length 0 with an output buffer
  changes nothing: it returns 0, writes no output, and leaves the whole session as it
  was, the pending AAD included.
\<close>

theorem zero_length_payload_is_noop:
  assumes "cipher_data ctx = Some a" and "\<not> tls a"
  shows "we_aes_gcm_cipher W ok ctx (Some ob) [] = Some (0, ctx, Some ob)"
  using assms by (simp add: we_aes_gcm_cipher_def)

theorem zero_length_payload_is_noop_witness:
  "we_aes_gcm_cipher demo_wc True
      (demo_ctx ((demo_session False (replicate 16 0))\<lparr>aad := Some [1, 2, 3], aadLen := 3\<rparr>))
      (Some [9, 9]) []
     = Some (0, demo_ctx ((demo_session False (replicate 16 0))\<lparr>aad := Some [1, 2, 3], aadLen := 3\<rparr>),
             Some [9, 9])"
proof -
  let ?a = "(demo_session False (replicate 16 0))\<lparr>aad := Some [1, 2, 3], aadLen := 3\<rparr>"
  have c: "cipher_data (demo_ctx ?a) = Some ?a" by (simp add: demo_ctx_def)
  have t: "\<not> tls ?a" by (simp add: demo_session_def)
  from zero_length_payload_is_noop [OF c t, of demo_wc True "[9, 9]"] show ?thesis .
qed

text \<open>
  C6 as stated says the call clears the pending AAD. The branch of lines 252 to 254 only
  sets \<open>ret = 0\<close>: a session holding the AAD bytes "cd" still holds them after the call.
\<close>

theorem zero_length_payload_keeps_aad:
  "we_aes_gcm_cipher demo_wc True
      (demo_ctx ((demo_session True (replicate 16 0))\<lparr>aad := Some [99, 100], aadLen := 2\<rparr>))
      (Some []) []
     = Some (0, demo_ctx ((demo_session True (replicate 16 0))\<lparr>aad := Some [99, 100], aadLen := 2\<rparr>),
             Some [])"
  by (simp add: we_aes_gcm_cipher_def demo_ctx_def demo_session_def)

text \<open>
  C7, as amended. Provided every reallocation of the AAD buffer succeeds, three AAD-only
  calls with "ab", "cd" and "ef" followed by a payload call give the same result (return
  value, output bytes, and session, the tag included) as one AAD-only call with "abcdef"
  followed by the same payload call from the same context. This holds for every context,
  primitive, output buffer and payload.
\<close>

theorem aad_accumulation:
  fixes ctx :: "'a EVP_CIPHER_CTX"
  shows "do { c \<leftarrow> aad_pushes W [(True, [97, 98]), (True, [99, 100]), (True, [101, 102])] ctx;
              we_aes_gcm_cipher W ok c out inp }
       = do { c \<leftarrow> aad_pushes W [(True, [97, 98, 99, 100, 101, 102])] ctx;
              we_aes_gcm_cipher W ok c out inp }"
  by (simp only: aad_pushes_split)

text \<open>
  C7 as stated does not depend on the allocator. With an allocator that grows the
  buffer to 4 bytes but not to 6, the three calls leave the AAD "abcd" and the single
  call leaves none (both return 0, lines 240 to 250), and the encryption of the one
  byte payload 01 then gives different tags.
\<close>

theorem aad_accumulation_alloc_failure:
  "do { c \<leftarrow> aad_pushes demo_wc [(True, [97, 98]), (True, [99, 100]), (False, [101, 102])]
                (demo_ctx (demo_session True (replicate 16 0)));
        we_aes_gcm_cipher demo_wc True c (Some [0]) [1] }
     = Some (1, demo_ctx ((demo_session True (replicate 16 0))
                   \<lparr>tag := replicate 16 229, tagLen := 16\<rparr>), Some [91])
   \<and> do { c \<leftarrow> aad_pushes demo_wc [(False, [97, 98, 99, 100, 101, 102])]
                (demo_ctx (demo_session True (replicate 16 0)));
          we_aes_gcm_cipher demo_wc True c (Some [0]) [1] }
     = Some (1, demo_ctx ((demo_session True (replicate 16 0))
                   \<lparr>tag := replicate 16 91, tagLen := 16\<rparr>), Some [91])"
  by (simp add: engine_eval replicate_add [symmetric])

text \<open>
  C8. The claim: an AAD-only call outside TLS mode appends its \<open>n\<close> input bytes and
  returns \<open>n\<close>, and an allocation failure is distinguishable from success. The source
  appends the bytes, but returns 0 when the reallocation succeeds (line 249) and 0 when
  it fails (line 242), against its own documentation (lines 212 to 215: the length of
  the input on success and 0 on failure).
\<close>

theorem aad_only_call_returns_zero:
  assumes "cipher_data ctx = Some a" and "\<not> tls a" and "session_ok a"
    and "aadLen a + int (length inp) < 2 ^ 31"
  shows "we_aes_gcm_cipher W True ctx None inp
           = Some (0, ctx\<lparr>cipher_data := Some (a\<lparr>aad := Some (aad_bytes a @ inp),
                                                   aadLen := aadLen a + int (length inp)\<rparr>)\<rparr>, None)
       \<and> we_aes_gcm_cipher W False ctx None inp = Some (0, ctx, None)"
proof -
  have "length inp < 2 ^ 31" using assms(4) session_ok_aad(4) [OF assms(3)] by simp
  from aad_push_result [OF assms(1,2) this, of W] assms(4) session_ok_aad [OF assms(3)]
  have "we_aes_gcm_cipher W True ctx None inp
           = Some (0, ctx\<lparr>cipher_data := Some (a\<lparr>aad := Some (aad_bytes a @ inp),
                                                   aadLen := aadLen a + int (length inp)\<rparr>)\<rparr>, None)"
    by simp
  moreover have "we_aes_gcm_cipher W False ctx None inp = Some (0, ctx, None)"
    using assms(1,2) by (simp add: we_aes_gcm_cipher_def)
  ultimately show ?thesis by simp
qed

theorem aad_only_call_returns_zero_witness:
  "we_aes_gcm_cipher demo_wc True (demo_ctx (demo_session True (replicate 16 0))) None [97, 98]
     = Some (0, demo_ctx ((demo_session True (replicate 16 0))\<lparr>aad := Some [97, 98], aadLen := 2\<rparr>),
             None)
   \<and> we_aes_gcm_cipher demo_wc False (demo_ctx (demo_session True (replicate 16 0))) None [97, 98]
     = Some (0, demo_ctx (demo_session True (replicate 16 0)), None)"
proof -
  let ?a = "demo_session True (replicate 16 0)"
  have c: "cipher_data (demo_ctx ?a) = Some ?a" by (simp add: demo_ctx_def)
  have t: "\<not> tls ?a" by (simp add: demo_session_def)
  have ok: "session_ok ?a" by (simp add: session_ok_def demo_session_def)
  have b: "aadLen ?a + int (length [97, 98 :: byte]) < 2 ^ 31" by (simp add: demo_session_def)
  from aad_only_call_returns_zero [OF c t ok b, of demo_wc]
  show ?thesis by (simp add: demo_ctx_def demo_session_def aad_bytes_def)
qed

text \<open>
  C9. The loop of \<open>EVP_CTRL_GCM_IV_GEN\<close> touches the IV at the indices \<open>ivLen - 1\<close> down
  to \<open>ivLen - 8\<close>. \<open>EVP_CTRL_AEAD_SET_IVLEN\<close> accepts every length from 1 to 16. With
  a length of at least 8 no call with a valid length argument leaves the array; with a
  length from 1 to 7 a call leaves it (at index -1) exactly when the first \<open>ivLen\<close> bytes
  of the IV are all 0xFF after the seed was copied in, and the call whose seed is
  \<open>ivLen\<close> bytes 0xFF is such a call: the error branch is reachable for every session.
\<close>

theorem iv_gen_index_bounds:
  assumes "cipher_data ctx = Some a" and "length (iv a) = 16" and "1 \<le> k" and "k \<le> 16"
  shows "we_aes_gcm_ctrl W m ctx EVP_CTRL_AEAD_SET_IVLEN k p
           = Some (1, ctx\<lparr>cipher_data := Some (a\<lparr>ivLen := k\<rparr>)\<rparr>, p)
       \<and> (\<forall>arg (src :: byte list). 1 \<le> arg \<and> arg \<le> 16 \<and> nat arg \<le> length src \<longrightarrow>
            (we_aes_gcm_ctrl W m (ctx\<lparr>cipher_data := Some (a\<lparr>ivLen := k\<rparr>)\<rparr>)
                 EVP_CTRL_GCM_IV_GEN arg (Bytes src) = None
             \<longleftrightarrow> k \<le> 7 \<and> (\<forall>b \<in> set (take (nat k) (take (nat arg) src @ drop (nat arg) (iv a))). b = 255)))
       \<and> (k \<le> 7 \<longrightarrow>
            we_aes_gcm_ctrl W m (ctx\<lparr>cipher_data := Some (a\<lparr>ivLen := k\<rparr>)\<rparr>)
                 EVP_CTRL_GCM_IV_GEN k (Bytes (replicate (nat k) 255)) = None)"
proof (intro conjI allI impI)
  show "we_aes_gcm_ctrl W m ctx EVP_CTRL_AEAD_SET_IVLEN k p
           = Some (1, ctx\<lparr>cipher_data := Some (a\<lparr>ivLen := k\<rparr>)\<rparr>, p)"
    using assms by (simp add: we_aes_gcm_ctrl_def GCM_NONCE_MAX_SZ_def)
next
  fix arg and src :: "byte list"
  assume h: "1 \<le> arg \<and> arg \<le> 16 \<and> nat arg \<le> length src"
  let ?a = "a\<lparr>ivLen := k\<rparr>"
  let ?v = "take (nat arg) src @ drop (nat arg) (iv a)"
  have lv: "length ?v = 16" using h assms by (simp add: min_def) linarith
  have gen: "ctrl_iv_gen ?a arg (Bytes src) =
           do { v1 \<leftarrow> iv_gen_loop (k - 1) (k - 8) ?v; Some (1, ?a\<lparr>iv := v1\<rparr>) }"
    using ctrl_iv_gen_copy [of arg src ?a] h assms by simp
  have top: "we_aes_gcm_ctrl W m (ctx\<lparr>cipher_data := Some ?a\<rparr>) EVP_CTRL_GCM_IV_GEN arg (Bytes src) = None
              \<longleftrightarrow> iv_gen_loop (k - 1) (k - 8) ?v = None"
    by (simp add: we_aes_gcm_ctrl_def gen split: bind_splits)
  show "we_aes_gcm_ctrl W m (ctx\<lparr>cipher_data := Some ?a\<rparr>) EVP_CTRL_GCM_IV_GEN arg (Bytes src) = None
          \<longleftrightarrow> k \<le> 7 \<and> (\<forall>b \<in> set (take (nat k) ?v). b = 255)"
  proof (cases "k \<le> 7")
    case True
    then show ?thesis unfolding top using iv_gen_loop_short [of k ?v] assms lv by simp
  next
    case False
    then show ?thesis unfolding top using iv_gen_loop_in_range [of k ?v] assms lv by simp
  qed
next
  assume k7: "k \<le> 7"
  let ?a = "a\<lparr>ivLen := k\<rparr>"
  let ?src = "replicate (nat k) (255 :: byte)"
  let ?v = "take (nat k) ?src @ drop (nat k) (iv a)"
  have lv: "length ?v = 16" using assms by simp
  have gen: "ctrl_iv_gen ?a k (Bytes ?src) =
           do { v1 \<leftarrow> iv_gen_loop (k - 1) (k - 8) ?v; Some (1, ?a\<lparr>iv := v1\<rparr>) }"
    using ctrl_iv_gen_copy [of k ?src ?a] assms by simp
  have "iv_gen_loop (k - 1) (k - 8) ?v = None"
    using iv_gen_loop_short [of k ?v] assms k7 lv by simp
  then show "we_aes_gcm_ctrl W m (ctx\<lparr>cipher_data := Some ?a\<rparr>) EVP_CTRL_GCM_IV_GEN k (Bytes ?src) = None"
    by (simp add: we_aes_gcm_ctrl_def gen)
qed

theorem iv_gen_index_bounds_witness:
  "we_aes_gcm_ctrl demo_wc True (demo_ctx (demo_session True (replicate 16 0)))
       EVP_CTRL_AEAD_SET_IVLEN 4 NULL
     = Some (1, demo_ctx ((demo_session True (replicate 16 0))\<lparr>ivLen := 4\<rparr>), NULL)
   \<and> we_aes_gcm_ctrl demo_wc True (demo_ctx ((demo_session True (replicate 16 0))\<lparr>ivLen := 4\<rparr>))
       EVP_CTRL_GCM_IV_GEN 4 (Bytes [255, 255, 255, 255]) = None
   \<and> we_aes_gcm_ctrl demo_wc True (demo_ctx ((demo_session True (replicate 16 0))\<lparr>ivLen := 4\<rparr>))
       EVP_CTRL_GCM_IV_GEN 4 (Bytes [255, 255, 255, 0]) \<noteq> None
   \<and> we_aes_gcm_ctrl demo_wc True (demo_ctx ((demo_session True (replicate 16 0))\<lparr>ivLen := 8\<rparr>))
       EVP_CTRL_GCM_IV_GEN 8 (Bytes (replicate 8 255)) \<noteq> None"
proof -
  let ?a = "demo_session True (replicate 16 0)"
  have c: "cipher_data (demo_ctx ?a) = Some ?a" by (simp add: demo_ctx_def)
  have l: "length (iv ?a) = 16" by (simp add: demo_session_def)
  have u: "demo_ctx ?a\<lparr>cipher_data := Some (?a\<lparr>ivLen := k\<rparr>)\<rparr> = demo_ctx (?a\<lparr>ivLen := k\<rparr>)" for k
    by (simp add: demo_ctx_def)
  have iv0: "iv ?a = replicate 16 0" by (simp add: demo_session_def)
  have p4: "(1::int) \<le> 4" "(4::int) \<le> 16" and p8: "(1::int) \<le> 8" "(8::int) \<le> 16"
    by simp_all
  note t4 = iv_gen_index_bounds [OF c l p4, of demo_wc True NULL, unfolded u]
  note t8 = iv_gen_index_bounds [OF c l p8, of demo_wc True NULL, unfolded u]
  have r4: "replicate (nat 4) (255 :: byte) = [255, 255, 255, 255]"
    by (simp add: numeral_eq_Suc)
  from t4 have a: "we_aes_gcm_ctrl demo_wc True (demo_ctx ?a) EVP_CTRL_AEAD_SET_IVLEN 4 NULL
     = Some (1, demo_ctx (?a\<lparr>ivLen := 4\<rparr>), NULL)" by simp
  from t4 have b: "we_aes_gcm_ctrl demo_wc True (demo_ctx (?a\<lparr>ivLen := 4\<rparr>))
       EVP_CTRL_GCM_IV_GEN 4 (Bytes [255, 255, 255, 255]) = None"
    by (simp add: r4)
  from t4 have "(we_aes_gcm_ctrl demo_wc True (demo_ctx (?a\<lparr>ivLen := 4\<rparr>))
       EVP_CTRL_GCM_IV_GEN 4 (Bytes [255, 255, 255, 0]) = None)
       \<longleftrightarrow> (4::int) \<le> 7 \<and> (\<forall>b \<in> set (take (nat 4) (take (nat 4) [255, 255, 255, 0 :: byte] @ drop (nat 4) (iv ?a))). b = 255)"
    by (elim conjE allE [of _ 4] allE [of _ "[255, 255, 255, 0]"]) simp
  then have c': "we_aes_gcm_ctrl demo_wc True (demo_ctx (?a\<lparr>ivLen := 4\<rparr>))
       EVP_CTRL_GCM_IV_GEN 4 (Bytes [255, 255, 255, 0]) \<noteq> None"
    by simp
  from t8 have "(we_aes_gcm_ctrl demo_wc True (demo_ctx (?a\<lparr>ivLen := 8\<rparr>))
       EVP_CTRL_GCM_IV_GEN 8 (Bytes (replicate 8 255)) = None)
       \<longleftrightarrow> (8::int) \<le> 7 \<and> (\<forall>b \<in> set (take (nat 8) (take (nat 8) (replicate 8 (255 :: byte)) @ drop (nat 8) (iv ?a))). b = 255)"
    by (elim conjE allE [of _ 8] allE [of _ "replicate 8 255"]) simp
  then have d: "we_aes_gcm_ctrl demo_wc True (demo_ctx (?a\<lparr>ivLen := 8\<rparr>))
       EVP_CTRL_GCM_IV_GEN 8 (Bytes (replicate 8 255)) \<noteq> None"
    by simp
  from a b c' d show ?thesis by simp
qed

text \<open>
  C10. A \<open>EVP_CTRL_AEAD_TLS1_AAD\<close> command with a 13 byte header that fails because
  the encoded length is too small (below 8, or for decrypt below 24) has already
  replaced the AAD accumulated before by a copy of the header as it was passed, with
  \<open>aadLen = 13\<close>; the TLS flag is left as it was.
\<close>

theorem set_tls_aad_not_atomic:
  assumes "cipher_data ctx = Some a" and "length hdr = 13"
    and "be_nat (drop 11 hdr) < 8 \<or> (\<not> enc a \<and> be_nat (drop 11 hdr) - 8 < 16)"
  shows "we_aes_gcm_ctrl W True ctx EVP_CTRL_AEAD_TLS1_AAD 13 (Bytes hdr)
           = Some (0, ctx\<lparr>cipher_data := Some (a\<lparr>aad := Some hdr, aadLen := 13\<rparr>)\<rparr>, Bytes hdr)
         \<and> tls (a\<lparr>aad := Some hdr, aadLen := 13\<rparr>) = tls a"
  using assms(1,3)
  by (simp add: we_aes_gcm_ctrl_def ctrl_tls1_aad_header [OF assms(2)])

theorem set_tls_aad_not_atomic_witness:
  "we_aes_gcm_ctrl demo_wc True
      (demo_ctx ((demo_session False (replicate 16 0))\<lparr>aad := Some [97, 98], aadLen := 2\<rparr>))
      EVP_CTRL_AEAD_TLS1_AAD 13 (Bytes [0,0,0,0,0,0,0,1, 23, 3,3, 0,20])
     = Some (0, demo_ctx ((demo_session False (replicate 16 0))
                  \<lparr>aad := Some [0,0,0,0,0,0,0,1, 23, 3,3, 0,20], aadLen := 13\<rparr>),
             Bytes [0,0,0,0,0,0,0,1, 23, 3,3, 0,20])
   \<and> \<not> tls ((demo_session False (replicate 16 0))
                  \<lparr>aad := Some [0,0,0,0,0,0,0,1, 23, 3,3, 0,20], aadLen := 13\<rparr>)"
proof -
  let ?a = "(demo_session False (replicate 16 0))\<lparr>aad := Some [97, 98], aadLen := 2\<rparr>"
  let ?h = "[0,0,0,0,0,0,0,1, 23, 3,3, 0,20] :: byte list"
  have c: "cipher_data (demo_ctx ?a) = Some ?a" by (simp add: demo_ctx_def)
  have l: "length ?h = 13" by simp
  have L: "be_nat (drop 11 ?h) = 20" by (simp add: be_nat_def)
  have s: "be_nat (drop 11 ?h) < 8 \<or> (\<not> enc ?a \<and> be_nat (drop 11 ?h) - 8 < 16)"
    unfolding L by (simp add: demo_session_def)
  from set_tls_aad_not_atomic [OF c l s, of demo_wc]
  show ?thesis by (simp add: demo_ctx_def demo_session_def)
qed

end
